theory Spec2Isabelle
  imports Complex_Main "HOL-Library.Product_Lexorder" "HOL-Library.Multiset"
begin

section \<open>JavaScript values used by app.js\<close>

text \<open>
  A JavaScript Number is modelled by its exact mathematical value: a finite Number is a
  rational, and the three non-finite values are constructors of their own. The two zeros
  are not distinguished (they print and compare alike in every place app.js uses them).
\<close>

datatype jsnum = Fin rat | NaN | PosInf | NegInf

text \<open>
  The rationals that are finite Numbers (IEEE 754 doubles): a significand of at most 53
  bits times a power of two between \<open>2^-1074\<close> and \<open>2^971\<close>. Every finite Number is such
  a rational, so a statement about Numbers assumes it of its rational.
\<close>

definition is_double :: "rat \<Rightarrow> bool" where
  "is_double x =
     (\<exists>m a b. \<bar>m\<bar> < 2 ^ 53 \<and> a \<le> 971 \<and> b \<le> 1074 \<and> x = of_int m * 2 ^ a / 2 ^ b)"

text \<open>
  The scalar values a field of the scoreboard JSON can hold; \<open>Undefined\<close> is what
  reading an absent field (or reading through \<open>?.\<close> on an absent parent) gives.
\<close>

datatype jsval = Undefined | Null | Bool bool | Num jsnum | Str string

text \<open>
  Strings hold UTF-8. \<open>ws_len s\<close> is the number of bytes of the white space or line
  terminator code point at the head of \<open>s\<close>, zero when there is none.
\<close>

definition white_space :: "nat list list" where
  "white_space =
     [[9], [10], [11], [12], [13], [32], [194, 160], [225, 154, 128],
      [226, 128, 128], [226, 128, 129], [226, 128, 130], [226, 128, 131],
      [226, 128, 132], [226, 128, 133], [226, 128, 134], [226, 128, 135],
      [226, 128, 136], [226, 128, 137], [226, 128, 138], [226, 128, 168],
      [226, 128, 169], [226, 128, 175], [226, 129, 159], [227, 128, 128],
      [239, 187, 191]]"

definition ws_len :: "string \<Rightarrow> nat" where
  "ws_len s =
     (case find (\<lambda>p. take (length p) (map of_char s) = p) white_space of
        None \<Rightarrow> 0
      | Some p \<Rightarrow> length p)"

function trim_start :: "string \<Rightarrow> string" where
  "trim_start s = (if s = [] \<or> ws_len s = 0 then s else trim_start (drop (ws_len s) s))"
  by pat_completeness auto
termination
  by (relation "measure length") auto

declare trim_start.simps [simp del]

text \<open>
  \<open>Number(raw)\<close>: the language's ToNumber. A string that is empty or all white space
  converts to zero; the parser of the other strings (numeric literals, else NaN) is the
  language's own and is taken as the parameter \<open>sn\<close>.
\<close>

definition Number_js :: "(string \<Rightarrow> jsnum) \<Rightarrow> jsval \<Rightarrow> jsnum" where
  "Number_js sn raw =
     (case raw of
        Undefined \<Rightarrow> NaN
      | Null \<Rightarrow> Fin 0
      | Bool b \<Rightarrow> Fin (if b then 1 else 0)
      | Num n \<Rightarrow> n
      | Str s \<Rightarrow> (if trim_start s = [] then Fin 0 else sn s))"

subsection \<open>Integers as Numbers\<close>

text \<open>The number of bits of a positive integer.\<close>

fun bitlen :: "int \<Rightarrow> nat" where
  "bitlen m = (if m \<le> 0 then 0 else Suc (bitlen (m div 2)))"

declare bitlen.simps [simp del]

text \<open>
  The Number nearest to a non-negative integer, ties going to the even significand
  (the language's conversion of a mathematical value to a Number); \<open>None\<close> is the
  overflow to Infinity.
\<close>

definition round_int :: "int \<Rightarrow> int option" where
  "round_int m =
     (let L = bitlen m
      in if L \<le> 53 then Some m
         else (let e = L - 53;
                   q = m div 2 ^ e;
                   r = m mod 2 ^ e;
                   half = 2 ^ (e - 1);
                   q' = (if half < r \<or> (r = half \<and> odd q) then q + 1 else q);
                   v = q' * 2 ^ e
               in if 2 ^ 1024 \<le> v then None else Some v))"

subsection \<open>Decimal rendering\<close>

definition digit_char :: "nat \<Rightarrow> char" where
  "digit_char d = ''0123456789'' ! d"

fun nat_to_string :: "nat \<Rightarrow> string" where
  "nat_to_string n =
     (if n < 10 then [digit_char n] else nat_to_string (n div 10) @ [digit_char (n mod 10)])"

declare nat_to_string.simps [simp del]

text \<open>The same digits, computed on an integer (for the large ones).\<close>

function dec :: "int \<Rightarrow> string" where
  "dec n = (if n < 10 then [digit_char (nat n)]
            else dec (n div 10) @ [digit_char (nat (n mod 10))])"
  by pat_completeness auto
termination
  by (relation "measure nat") auto

declare dec.simps [simp del]

text \<open>
  Number::toString on an integral Number \<open>x\<close> of magnitude \<open>2^53\<close> or more. The language
  asks for the fewest digits \<open>k\<close> such that some \<open>k\<close>-digit decimal, scaled by a power of
  ten, converts back to \<open>x\<close>; where two do, the nearer to \<open>x\<close> (the even one on a tie) is
  taken, as the language recommends and engines do. Truncating \<open>x\<close> to \<open>k\<close> digits
  gives the only two candidates. \<open>shortest x\<close> is the scaled decimal chosen; up to 21
  digits it is printed as it is, longer ones in exponent notation.
\<close>

definition reads_as :: "int \<Rightarrow> int \<Rightarrow> bool" where
  "reads_as x v = (round_int v = Some x)"

definition candidates :: "int \<Rightarrow> nat \<Rightarrow> int list" where
  "candidates x k =
     (let p = 10 ^ (length (dec x) - k); lo = (x div p) * p
      in [lo, lo + p])"

definition choose_digits :: "int \<Rightarrow> nat \<Rightarrow> int" where
  "choose_digits x k =
     (let p = 10 ^ (length (dec x) - k);
          lo = (x div p) * p;
          hi = lo + p
      in if \<not> reads_as x hi then lo
         else if \<not> reads_as x lo then hi
         else if x - lo < hi - x then lo
         else if hi - x < x - lo then hi
         else if even (x div p) then lo else hi)"

definition shortest :: "int \<Rightarrow> int" where
  "shortest x =
     (case find (\<lambda>k. list_ex (reads_as x) (candidates x k)) [1..<Suc (length (dec x))] of
        None \<Rightarrow> x
      | Some k \<Rightarrow> choose_digits x k)"

definition String_big :: "int \<Rightarrow> string" where
  "String_big x =
     (let v = dec (shortest x);
          n = length v
      in if n \<le> 21 then v
         else (let ds = rev (dropWhile (\<lambda>c. c = CHR ''0'') (rev v));
                   e = nat_to_string (n - 1)
               in if length ds = 1 then ds @ ''e+'' @ e
                  else hd ds # ''.'' @ tl ds @ ''e+'' @ e))"

text \<open>
  \<open>String(n)\<close> for an integral Number. Below \<open>2^53\<close> in magnitude every integer is a
  Number, no shorter decimal converts back to it, and its own digits are printed.
\<close>

definition String_int :: "int \<Rightarrow> string" where
  "String_int i =
     (if i < 0 then ''-'' else '''') @
     (if \<bar>i\<bar> < 2 ^ 53 then nat_to_string (nat \<bar>i\<bar>) else String_big \<bar>i\<bar>)"

text \<open>
  \<open>x.toFixed(1)\<close> on a finite Number, following Number.prototype.toFixed with
  \<open>f = 1\<close>: the sign is split off, the magnitude is rounded to the nearest tenth
  (the larger one on a tie), and the digits are padded to at least two. From \<open>10^21\<close>
  on the result is \<open>String\<close> of the magnitude (a Number that large is an integer).
\<close>

definition toFixed1 :: "rat \<Rightarrow> string" where
  "toFixed1 x0 =
     (let s = (if x0 < 0 then ''-'' else '''');
          x = (if x0 < 0 then - x0 else x0);
          m = (if x \<ge> 10 ^ 21 then String_int (floor x)
               else (let n = nat (floor (x * 10 + 1 / 2));
                         m0 = nat_to_string n;
                         k0 = length m0;
                         m1 = (if k0 \<le> 1 then replicate (1 + 1 - k0) CHR ''0'' @ m0 else m0);
                         k = length m1
                     in take (k - 1) m1 @ ''.'' @ drop (k - 1) m1))
      in s @ m)"

text \<open>\<open>s.replace(/\.0$/, "")\<close>: a final \<open>.0\<close> is removed.\<close>

definition strip_dot0 :: "string \<Rightarrow> string" where
  "strip_dot0 s =
     (if 2 \<le> length s \<and> drop (length s - 2) s = ''.0'' then take (length s - 2) s else s)"

definition isInteger :: "rat \<Rightarrow> bool" where
  "isInteger x = (of_int (floor x) = x)"

section \<open>The scoreboard data\<close>

record odds_entry =
  spread :: jsval

record team =
  team_abbreviation :: "string option"
  team_shortDisplayName :: "string option"
  team_name :: "string option"

text \<open>
  One period of a competitor's line score; \<open>Undefined\<close> is an absent field.
\<close>

record period =
  ls_value :: jsval
  ls_displayValue :: jsval
  ls_score :: jsval

text \<open>
  \<open>linescores\<close> is \<open>None\<close> when the field is not an array; an entry \<open>None\<close> of the array
  is a \<open>null\<close> period.
\<close>

record competitor =
  homeAway :: "string option"
  score :: jsval
  team_of :: "team option"
  linescores :: "period option list option"

text \<open>
  Fields have the JSON types of the scoreboard feed: identifiers, names and states are
  strings, \<open>competitions\<close>, \<open>competitors\<close>, \<open>linescores\<close> and \<open>odds\<close> are arrays; an absent
  array of competitions or competitors is the empty list. An entry \<open>None\<close> of
  \<open>competitors\<close> is a \<open>null\<close> entry of the array. Only \<open>spread\<close>, \<open>score\<close> and the
  period values, which app.js converts itself, are kept as untyped scalars.

  \<open>comp_state\<close> is \<open>status?.type?.state\<close> of the competition, \<open>ev_state\<close> the same of the
  event; \<open>None\<close> when any link of the chain is absent. \<open>ev_time\<close> is the time value of
  \<open>new Date(event.date)\<close> in milliseconds, \<open>None\<close> when it is NaN (a missing or
  unparsable date).
\<close>

record competition =
  comp_state :: "string option"
  comp_name :: "string option"
  competitors :: "competitor option list"
  odds :: "odds_entry list option"

record event =
  ev_id :: "string option"
  ev_name :: "string option"
  ev_shortName :: "string option"
  ev_time :: "int option"
  ev_state :: "string option"
  competitions :: "competition list"

text \<open>What a thrown TypeError is reported as.\<close>

definition TYPE_ERROR :: string where
  "TYPE_ERROR = ''TypeError''"

section \<open>Spread calculator\<close>

text \<open>\<open>competition?.odds?.[0]?.spread\<close>, for \<open>competition\<close> absent (\<open>{}\<close>) or present.\<close>

definition first_spread :: "competition option \<Rightarrow> jsval" where
  "first_spread c =
     (case c of None \<Rightarrow> Undefined
      | Some cn \<Rightarrow>
          (case odds cn of None \<Rightarrow> Undefined
           | Some [] \<Rightarrow> Undefined
           | Some (o1 # _) \<Rightarrow> spread o1))"

text \<open>\<open>parseHomeSpread\<close>; the result \<open>None\<close> is JavaScript's \<open>null\<close>.\<close>

definition parseHomeSpread :: "(string \<Rightarrow> jsnum) \<Rightarrow> competition option \<Rightarrow> rat option" where
  "parseHomeSpread sn c =
     (let raw = first_spread c;
          n = Number_js sn raw
      in (case n of Fin x \<Rightarrow> Some x | _ \<Rightarrow> None))"

definition prettyNum :: "rat \<Rightarrow> string" where
  "prettyNum n =
     (if isInteger n then String_int (floor n) else strip_dot0 (toFixed1 n))"

text \<open>The Number nearest to the literal \<open>1e-9\<close>.\<close>

definition EPS :: rat where
  "EPS = 4835703278458517 / 2 ^ 82"

text \<open>
  The expression \<open>isHome ? homeSpread : -homeSpread\<close> of \<open>spreadSuffixForSide\<close>
  (line 426), the spec's \<open>sideSpread\<close>, on a non-null spread.
\<close>

definition sideSpread :: "rat \<Rightarrow> bool \<Rightarrow> rat" where
  "sideSpread homeSpread isHome = (if isHome then homeSpread else - homeSpread)"

definition spreadSuffixForSide :: "rat option \<Rightarrow> bool \<Rightarrow> string" where
  "spreadSuffixForSide homeSpread isHome =
     (case homeSpread of
        None \<Rightarrow> ''''
      | Some h \<Rightarrow>
          (let val = sideSpread h isHome
           in if \<bar>val\<bar> < EPS then '' (PK)''
              else (let sign = (if val > 0 then ''+'' else '''')
                    in '' ('' @ sign @ prettyNum val @ '')'')))"

section \<open>Session state\<close>

text \<open>
  The global \<open>state\<close> object. \<open>liveEventIds\<close> is a JavaScript Set of identifiers
  (an absent \<open>event.id\<close> is the member \<open>None\<close>); \<open>refreshTimer\<close> is the handle
  last returned by \<open>setInterval\<close>, \<open>None\<close> for the initial \<open>null\<close>.
\<close>

record app_state =
  seasonYear :: "int option"
  seasonType :: int
  week :: "int option"
  maxWeeks :: int
  liveEventIds :: "string option set"
  refreshTimer :: "nat option"

definition DEFAULT_SEASON_TYPE :: int where
  "DEFAULT_SEASON_TYPE = 2"

definition state0 :: app_state where
  "state0 = \<lparr> seasonYear = None, seasonType = DEFAULT_SEASON_TYPE, week = None,
     maxWeeks = 18, liveEventIds = {}, refreshTimer = None \<rparr>"

section \<open>Pick recorder\<close>

text \<open>\<open>a || b\<close> on optional strings: an absent or empty string is falsy.\<close>

definition truthy :: "string option \<Rightarrow> bool" where
  "truthy a = (case a of None \<Rightarrow> False | Some s \<Rightarrow> s \<noteq> [])"

definition orelse :: "string option \<Rightarrow> string option \<Rightarrow> string option" where
  "orelse a b = (if truthy a then a else b)"

text \<open>\<open>a || ""\<close>.\<close>

definition or_empty :: "string option \<Rightarrow> string" where
  "or_empty a = (case a of None \<Rightarrow> [] | Some s \<Rightarrow> s)"

text \<open>\<open>event?.competitions?.[0] || {}\<close>; \<open>None\<close> stands for the empty object.\<close>

definition first_competition :: "event \<Rightarrow> competition option" where
  "first_competition e = (case competitions e of [] \<Rightarrow> None | c # _ \<Rightarrow> Some c)"

text \<open>
  \<open>competitors.find(t => t.homeAway === side)\<close>: the callback reads \<open>t.homeAway\<close> of
  each entry in turn until one matches, and throws a TypeError on a \<open>null\<close> entry.
  \<open>Inl\<close> is the error thrown, \<open>Inr None\<close> the result \<open>undefined\<close>.
\<close>

fun find_side :: "string \<Rightarrow> competitor option list \<Rightarrow> string + competitor option" where
  "find_side side [] = Inr None"
| "find_side side (None # ts) = Inl TYPE_ERROR"
| "find_side side (Some t # ts) =
     (if homeAway t = Some side then Inr (Some t) else find_side side ts)"

text \<open>
  \<open>comp?.competitors?.find(t => t.homeAway === side) || comp?.competitors?.[i] || {}\<close>;
  \<open>Inr None\<close> stands for the empty object (also taken for a \<open>null\<close> entry \<open>i\<close>).
\<close>

definition side_competitor ::
  "competition option \<Rightarrow> string \<Rightarrow> nat \<Rightarrow> string + competitor option" where
  "side_competitor c side i =
     (case c of None \<Rightarrow> Inr None
      | Some cn \<Rightarrow>
          (case find_side side (competitors cn) of
             Inl err \<Rightarrow> Inl err
           | Inr (Some t) \<Rightarrow> Inr (Some t)
           | Inr None \<Rightarrow>
               Inr (if i < length (competitors cn) then competitors cn ! i else None)))"

text \<open>\<open>c?.team?.abbreviation || c?.team?.shortDisplayName || c?.team?.name || ""\<close>.\<close>

definition team_label :: "competitor option \<Rightarrow> string" where
  "team_label c =
     (case c of None \<Rightarrow> []
      | Some t \<Rightarrow>
          (case team_of t of None \<Rightarrow> []
           | Some tm \<Rightarrow>
               or_empty (orelse (team_abbreviation tm)
                          (orelse (team_shortDisplayName tm) (team_name tm)))))"

definition SHEETS_TOKEN :: string where
  "SHEETS_TOKEN = ''CHANGE_ME_SHARED_SECRET''"

text \<open>The object posted to the spreadsheet endpoint; \<open>p_spread = None\<close> is \<open>null\<close>.\<close>

record payload =
  p_token :: string
  p_eventId :: string
  p_eventName :: string
  p_shortName :: string
  p_seasonYear :: "int option"
  p_weekNumber :: "int option"
  p_spread :: "rat option"
  p_homeTeam :: string
  p_awayTeam :: string
  p_selectionHomeAway :: string
  p_teamButtonName :: string

text \<open>
  \<open>-homeSpread\<close> where \<open>homeSpread\<close> may be \<open>null\<close>: the operand is converted with
  ToNumber first, and \<open>null\<close> converts to zero.
\<close>

definition neg_nullable :: "rat option \<Rightarrow> rat" where
  "neg_nullable h = (case h of None \<Rightarrow> - 0 | Some x \<Rightarrow> - x)"

text \<open>
  \<open>recordPick\<close>, up to the payload it posts; \<open>Inl\<close> is a TypeError thrown by one of
  the two competitor lookups before the payload is built. The local \<open>spread\<close> of lines
  262-263 is computed and never read: the payload repeats the conditional without the
  null test.
\<close>

definition recordPick ::
  "(string \<Rightarrow> jsnum) \<Rightarrow> app_state \<Rightarrow> event \<Rightarrow> string \<Rightarrow> string \<Rightarrow> string + payload" where
  "recordPick sn st e teamButtonName selectionHomeAway =
     (let c = first_competition e
      in case side_competitor c ''away'' 0 of
           Inl err \<Rightarrow> Inl err
         | Inr cAway \<Rightarrow>
             (case side_competitor c ''home'' 1 of
                Inl err \<Rightarrow> Inl err
              | Inr cHome \<Rightarrow>
                  (let homeTeam = team_label cHome;
                       awayTeam = team_label cAway;
                       homeSpread = parseHomeSpread sn c;
                       spread_local =
                         (case homeSpread of None \<Rightarrow> None
                          | Some h \<Rightarrow> Some (if selectionHomeAway = ''home'' then h else - h))
                   in Inr \<lparr> p_token = SHEETS_TOKEN,
                        p_eventId = or_empty (ev_id e),
                        p_eventName = or_empty (orelse (ev_name e) (orelse (ev_shortName e)
                                        (case c of None \<Rightarrow> None | Some cn \<Rightarrow> comp_name cn))),
                        p_shortName = or_empty (ev_shortName e),
                        p_seasonYear = seasonYear st,
                        p_weekNumber = week st,
                        p_spread = (if selectionHomeAway = ''home'' then homeSpread
                                    else Some (neg_nullable homeSpread)),
                        p_homeTeam = homeTeam,
                        p_awayTeam = awayTeam,
                        p_selectionHomeAway = selectionHomeAway,
                        p_teamButtonName =
                          (if selectionHomeAway = ''home'' then homeTeam else awayTeam) \<rparr>)))"

section \<open>The spec's wording of the spread suffix\<close>

text \<open>
  A magnitude formatted to at most one decimal place with a trailing \<open>.0\<close> trimmed:
  the integer part of the magnitude rounded to tenths, followed by a point and the
  tenths digit when that digit is not zero.
\<close>

definition one_decimal_trimmed :: "rat \<Rightarrow> string" where
  "one_decimal_trimmed a =
     (let t = nat (floor (a * 10 + 1 / 2))
      in nat_to_string (t div 10) @
         (if t mod 10 = 0 then [] else ''.'' @ [digit_char (t mod 10)]))"

text \<open>The Number nearest to the literal \<open>0.15\<close>; it lies below \<open>15/100\<close>.\<close>

definition DOUBLE_0_15 :: rat where
  "DOUBLE_0_15 = 5404319552844595 / 2 ^ 55"

text \<open>An event with a single competition that carries no odds at all.\<close>

definition no_odds_event :: event where
  "no_odds_event =
     \<lparr> ev_id = Some ''401'', ev_name = Some ''A at B'', ev_shortName = Some ''A @ B'',
       ev_time = Some 0, ev_state = None,
       competitions = [\<lparr> comp_state = Some ''pre'', comp_name = None,
                          competitors = [], odds = None \<rparr>] \<rparr>"

text \<open>A competition whose first odds entry has \<open>"spread": null\<close>.\<close>

definition null_spread_competition :: competition where
  "null_spread_competition =
     \<lparr> comp_state = Some ''pre'', comp_name = None, competitors = [],
       odds = Some [\<lparr> spread = Null \<rparr>] \<rparr>"

text \<open>A competition whose first odds entry has \<open>"spread": ""\<close>.\<close>

definition empty_spread_competition :: competition where
  "empty_spread_competition =
     \<lparr> comp_state = Some ''pre'', comp_name = None, competitors = [],
       odds = Some [\<lparr> spread = Str [] \<rparr>] \<rparr>"

section \<open>Event classifier\<close>

text \<open>
  \<open>s.toLowerCase()\<close> on the ASCII letters; every other byte is kept (no character
  outside ASCII lower-cases to a letter of the state names compared below).
\<close>

definition lower_char :: "char \<Rightarrow> char" where
  "lower_char c =
     (let n = (of_char c :: nat) in if 65 \<le> n \<and> n \<le> 90 then char_of (n + 32) else c)"

definition toLowerCase :: "string \<Rightarrow> string" where
  "toLowerCase s = map lower_char s"

text \<open>
  \<open>getState\<close>: the competition-level state, else the event-level one, else the empty
  string, lower-cased.
\<close>

definition getState :: "event \<Rightarrow> string" where
  "getState e =
     toLowerCase (or_empty (orelse
        (case first_competition e of None \<Rightarrow> None | Some c \<Rightarrow> comp_state c)
        (ev_state e)))"

text \<open>The own properties of the object literal \<open>STATUS_ORDER\<close>.\<close>

definition STATUS_ORDER :: "string \<rightharpoonup> int" where
  "STATUS_ORDER = map_of [(''post'', 0), (''in'', 1), (''pre'', 2)]"

text \<open>
  The property names that a plain object inherits from \<open>Object.prototype\<close> and that
  are their own lower case, so that a lower-cased state can name them:
  \<open>obj["constructor"]\<close> is the function \<open>Object\<close> and \<open>obj["__proto__"]\<close> is
  \<open>Object.prototype\<close>, for every object literal that has no own property of that name.
\<close>

definition inherited :: "string \<Rightarrow> bool" where
  "inherited s = (s = ''constructor'' \<or> s = ''__proto__'')"

text \<open>
  The value of \<open>STATUS_ORDER[getState(e)] ?? 3\<close>: a number, or the inherited object
  found under that name (which is not nullish, so the default does not apply).
\<close>

datatype prio = Rank int | Proto string

definition priority :: "event \<Rightarrow> prio" where
  "priority e =
     (let s = getState e
      in case STATUS_ORDER s of
           Some n \<Rightarrow> Rank n
         | None \<Rightarrow> (if inherited s then Proto s else Rank 3))"

text \<open>
  The comparator passed to \<open>sort\<close>. Two priorities are \<open>!==\<close> unless they are the same
  number or the same object; subtracting with an object operand gives NaN, and so does
  subtracting two dates when either is invalid.
\<close>

definition compareEvents :: "event \<Rightarrow> event \<Rightarrow> jsnum" where
  "compareEvents a b =
     (let sa = priority a; sb = priority b
      in if sa \<noteq> sb
         then (case (sa, sb) of
                 (Rank x, Rank y) \<Rightarrow> Fin (of_int (x - y))
               | _ \<Rightarrow> NaN)
         else (case (ev_time a, ev_time b) of
                 (Some ta, Some tb) \<Rightarrow> Fin (of_int (ta - tb))
               | _ \<Rightarrow> NaN))"

text \<open>
  The language's conversions and choices that app.js relies on and that this theory
  does not compute are parameters: \<open>strnum\<close> parses a numeric string literal (ToNumber on
  strings), \<open>fracstr\<close> prints a finite Number that is not an integer, \<open>implsort\<close> is
  the order an engine gives an array of events sorted with an inconsistent comparator.
\<close>

record js =
  strnum :: "string \<Rightarrow> jsnum"
  fracstr :: "rat \<Rightarrow> string"
  implsort :: "event list \<Rightarrow> event list"

text \<open>
  \<open>Array.prototype.sort\<close> with a comparator. The language's SortCompare reads a NaN
  from the comparator as zero. \<open>consistent_on\<close> is the language's notion of a consistent
  comparator on the elements sorted: it never returns NaN, every element equals itself,
  equality is symmetric, and equality, less and greater are transitive. For a
  consistent comparator the language fixes the result: the sorted order in which
  elements that compare equal keep their original order; the stable insertion sort
  computes it. For any other comparator the order is implementation-defined.
\<close>

definition SortCompare :: "('a \<Rightarrow> 'a \<Rightarrow> jsnum) \<Rightarrow> 'a \<Rightarrow> 'a \<Rightarrow> rat" where
  "SortCompare comparefn x y =
     (case comparefn x y of Fin v \<Rightarrow> v | NaN \<Rightarrow> 0 | PosInf \<Rightarrow> 1 | NegInf \<Rightarrow> - 1)"

definition consistent_on :: "('a \<Rightarrow> 'a \<Rightarrow> jsnum) \<Rightarrow> 'a list \<Rightarrow> bool" where
  "consistent_on f xs =
     (list_all (\<lambda>a. list_all (\<lambda>b. f a b \<noteq> NaN) xs) xs
      \<and> list_all (\<lambda>a. SortCompare f a a = 0) xs
      \<and> list_all (\<lambda>a. list_all (\<lambda>b.
           (if SortCompare f a b = 0 then SortCompare f b a = 0 else True)) xs) xs
      \<and> list_all (\<lambda>a. list_all (\<lambda>b. list_all (\<lambda>c.
           (if SortCompare f a b = 0 \<and> SortCompare f b c = 0
            then SortCompare f a c = 0 else True)
           \<and> (if SortCompare f a b < 0 \<and> SortCompare f b c < 0
               then SortCompare f a c < 0 else True)
           \<and> (if SortCompare f a b > 0 \<and> SortCompare f b c > 0
               then SortCompare f a c > 0 else True)) xs) xs) xs)"

fun insert_sorted :: "('a \<Rightarrow> 'a \<Rightarrow> jsnum) \<Rightarrow> 'a \<Rightarrow> 'a list \<Rightarrow> 'a list" where
  "insert_sorted comparefn x [] = [x]"
| "insert_sorted comparefn x (y # ys) =
     (if SortCompare comparefn x y \<le> 0 then x # y # ys
      else y # insert_sorted comparefn x ys)"

definition array_sort ::
  "('a \<Rightarrow> 'a \<Rightarrow> jsnum) \<Rightarrow> ('a list \<Rightarrow> 'a list) \<Rightarrow> 'a list \<Rightarrow> 'a list" where
  "array_sort comparefn impl xs =
     (if consistent_on comparefn xs then foldr (insert_sorted comparefn) xs [] else impl xs)"

definition sortEvents :: "js \<Rightarrow> event list \<Rightarrow> event list" where
  "sortEvents j evts = array_sort compareEvents (implsort j) evts"

subsection \<open>The spec's wording of the order\<close>

text \<open>
  The classified state as the spec words it: the state of the competition-level
  status when there is one (and it is not empty), else that of the event-level status,
  else the empty string; lower-cased.
\<close>

definition spec_state :: "event \<Rightarrow> string" where
  "spec_state e =
     (let event_level = (case ev_state e of None \<Rightarrow> [] | Some s \<Rightarrow> s)
      in toLowerCase
           (case competitions e of
              [] \<Rightarrow> event_level
            | c # _ \<Rightarrow>
                (case comp_state c of
                   None \<Rightarrow> event_level
                 | Some s \<Rightarrow> (if s = [] then event_level else s))))"

text \<open>The spec's priorities: post 0, in 1, pre 2, anything else 3.\<close>

definition spec_rank :: "event \<Rightarrow> int" where
  "spec_rank e =
     (if spec_state e = ''post'' then 0
      else if spec_state e = ''in'' then 1
      else if spec_state e = ''pre'' then 2
      else 3)"

text \<open>The kickoff time of an event whose date is valid.\<close>

definition kickoff :: "event \<Rightarrow> int" where
  "kickoff e = (case ev_time e of Some t \<Rightarrow> t | None \<Rightarrow> 0)"

text \<open>
  The spec's order: status priority first, kickoff time second.
\<close>

definition before_or_tied :: "event \<Rightarrow> event \<Rightarrow> bool" where
  "before_or_tied a b =
     (spec_rank a < spec_rank b \<or> (spec_rank a = spec_rank b \<and> kickoff a \<le> kickoff b))"

definition same_keys :: "event \<Rightarrow> event \<Rightarrow> bool" where
  "same_keys a b = (spec_rank a = spec_rank b \<and> kickoff a = kickoff b)"

text \<open>An event with a valid date whose state does not name an inherited property.\<close>

definition well_keyed :: "event \<Rightarrow> bool" where
  "well_keyed e = (ev_time e \<noteq> None \<and> \<not> inherited (getState e))"

subsection \<open>Sample events\<close>

definition mk_event :: "string \<Rightarrow> string \<Rightarrow> int \<Rightarrow> event" where
  "mk_event i s t =
     \<lparr> ev_id = Some i, ev_name = None, ev_shortName = None, ev_time = Some t,
       ev_state = None,
       competitions = [\<lparr> comp_state = Some s, comp_name = None, competitors = [],
                          odds = None \<rparr>] \<rparr>"

definition sample_events :: "event list" where
  "sample_events =
     [mk_event ''a'' ''PRE'' 5, mk_event ''b'' ''in'' 9, mk_event ''c'' ''weird'' 1,
      mk_event ''d'' ''post'' 7, mk_event ''e'' ''in'' 9, mk_event ''f'' ''pre'' 2]"

text \<open>
  An event whose state names an inherited property, a final one, and one without a
  valid date and without a competition-level state.
\<close>

definition ctor_event :: event where
  "ctor_event = mk_event ''x'' ''constructor'' 1"

definition post_event :: event where
  "post_event = mk_event ''y'' ''post'' 7"

definition dateless_event :: event where
  "dateless_event =
     \<lparr> ev_id = Some ''z'', ev_name = None, ev_shortName = None, ev_time = None,
       ev_state = Some ''Pre'', competitions = [] \<rparr>"

text \<open>
  An engine that parses no string as a number, prints no fraction, and leaves an array
  sorted with an inconsistent comparator in its given order.
\<close>

definition js0 :: js where
  "js0 = \<lparr> strnum = (\<lambda>_. NaN), fracstr = (\<lambda>_. []), implsort = (\<lambda>evts. evts) \<rparr>"

section \<open>Conversions used by the renderer\<close>

text \<open>ToString on the scalar values.\<close>

definition ToString_js :: "js \<Rightarrow> jsval \<Rightarrow> string" where
  "ToString_js j v =
     (case v of
        Undefined \<Rightarrow> ''undefined''
      | Null \<Rightarrow> ''null''
      | Bool b \<Rightarrow> (if b then ''true'' else ''false'')
      | Str s \<Rightarrow> s
      | Num NaN \<Rightarrow> ''NaN''
      | Num PosInf \<Rightarrow> ''Infinity''
      | Num NegInf \<Rightarrow> ''-Infinity''
      | Num (Fin x) \<Rightarrow> (if isInteger x then String_int (floor x) else fracstr j x))"

definition is_digit :: "char \<Rightarrow> bool" where
  "is_digit c = (48 \<le> (of_char c :: nat) \<and> (of_char c :: nat) \<le> 57)"

definition digits_value :: "string \<Rightarrow> int" where
  "digits_value z = foldl (\<lambda>a c. 10 * a + (of_char c - 48)) 0 z"

text \<open>
  \<open>parseInt(x, 10)\<close> on the string \<open>ToString(x)\<close>: leading white space is skipped, a
  sign is read, and the longest prefix of decimal digits is the value, converted to
  the nearest Number; with no digit the result is NaN. (Past the 20th significant digit
  the language lets an engine read zeros; engines convert the exact value, as here.)
\<close>

definition parseInt10 :: "string \<Rightarrow> jsnum" where
  "parseInt10 inputString =
     (let S = trim_start inputString;
          negative = (S \<noteq> [] \<and> hd S = CHR ''-'');
          S1 = (if S \<noteq> [] \<and> (hd S = CHR ''+'' \<or> hd S = CHR ''-'') then tl S else S);
          Z = takeWhile is_digit S1
      in if Z = [] then NaN
         else (case round_int (digits_value Z) of
                 None \<Rightarrow> (if negative then NegInf else PosInf)
               | Some v \<Rightarrow> Fin (if negative then - of_int v else of_int v)))"

text \<open>\<open>safeInt\<close>: the parsed Number when it is finite, else zero.\<close>

definition safeInt :: "js \<Rightarrow> jsval \<Rightarrow> rat" where
  "safeInt j x = (let n = parseInt10 (ToString_js j x) in case n of Fin v \<Rightarrow> v | _ \<Rightarrow> 0)"

section \<open>View renderer\<close>

text \<open>
  The line-score table: the header cells and, for each competitor, the team cell and
  the text of the period and total cells.
\<close>

record ls_table =
  ls_header :: "string list"
  ls_rows :: "(string \<times> string list) list"

text \<open>
  The display surface. A card keeps these parts of the article element: the state
  class, the badge, the spread suffix of each team button, the two score cells,
  whether the team buttons are disabled, the line-score table when there is one, and
  \<open>dataset.eventId\<close>. Logos, team names and the meta line, which are built from
  optional reads that cannot throw, are left out.
\<close>

record card =
  card_class :: string
  card_badge :: string
  card_awaySuffix :: string
  card_homeSuffix :: string
  card_awayScore :: string
  card_homeScore :: string
  card_disabled :: bool
  card_linescore :: "ls_table option"
  card_eventId :: "string option"

datatype node = SectionHeader string | CardGrid "card list"

text \<open>The status bar's template literals, as tagged values.\<close>

datatype status_msg =
    NoStatus
  | LoadingCurrentWeek
  | LoadingWeek "int option"
  | NoGamesFound "int option"
  | Showing nat "int option"
  | FailedToLoad

datatype log_entry = ConsoleError string | ConsoleWarn string

text \<open>How a call ends: it returns, or it throws (an async call rejects).\<close>

datatype outcome = Returned | Threw string

text \<open>
  Everything the handlers read and write: the \<open>state\<close> object, the grid container,
  the status bar, the week selector's options, whether the controls are wired, the set
  of interval timers that are active together with the next fresh handle, the console,
  and the numbers of \<open>loadWeek\<close> and \<open>refreshLive\<close> calls suspended at their fetch.
\<close>

record world =
  app :: app_state
  GRID :: "node list"
  STATUS :: status_msg
  WEEK_OPTIONS :: "int list"
  wired :: bool
  timers :: "nat set"
  next_timer :: nat
  console :: "log_entry list"
  pending_loads :: nat
  pending_ticks :: nat

text \<open>The em dash shown in place of a score before kickoff (UTF-8).\<close>

definition EM_DASH :: string where
  "EM_DASH = map char_of [226, 128, 148 :: nat]"

definition score_of :: "competitor option \<Rightarrow> jsval" where
  "score_of c = (case c of None \<Rightarrow> Undefined | Some t \<Rightarrow> score t)"

text \<open>
  \<open>hasLineScores\<close>: at least two competitors, each with a non-empty array of line
  scores (a \<open>null\<close> competitor has none).
\<close>

definition hasLineScores :: "competition option \<Rightarrow> bool" where
  "hasLineScores c =
     (case c of None \<Rightarrow> False
      | Some cn \<Rightarrow>
          2 \<le> length (competitors cn)
          \<and> list_all (\<lambda>t. case t of None \<Rightarrow> False
                            | Some t' \<Rightarrow> (case linescores t' of None \<Rightarrow> False
                                          | Some ps \<Rightarrow> ps \<noteq> []))
               (competitors cn))"

text \<open>\<open>a ?? b\<close>: the left operand unless it is \<open>null\<close> or \<open>undefined\<close>.\<close>

definition coalesce :: "jsval \<Rightarrow> jsval \<Rightarrow> jsval" where
  "coalesce a b = (if a = Undefined \<or> a = Null then b else a)"

text \<open>
  The cells of one competitor's periods:
  \<open>ls => safeInt(ls.value ?? ls.displayValue ?? ls.score ?? 0)\<close>, shown with
  \<open>String\<close>. Reading \<open>ls.value\<close> of a \<open>null\<close> period throws a TypeError.
\<close>

fun period_cells :: "js \<Rightarrow> period option list \<Rightarrow> string + string list" where
  "period_cells j [] = Inr []"
| "period_cells j (None # ps) = Inl TYPE_ERROR"
| "period_cells j (Some p # ps) =
     (case period_cells j ps of
        Inl err \<Rightarrow> Inl err
      | Inr cells \<Rightarrow>
          Inr (String_int (floor (safeInt j
                 (coalesce (ls_value p) (coalesce (ls_displayValue p)
                    (coalesce (ls_score p) (Num (Fin 0))))))) # cells))"

definition periods_of :: "competitor option \<Rightarrow> period option list" where
  "periods_of t =
     (case t of None \<Rightarrow> []
      | Some t' \<Rightarrow> (case linescores t' of None \<Rightarrow> [] | Some ps \<Rightarrow> ps))"

text \<open>
  One row of the table: the team cell, the period cells padded with empty cells up to
  \<open>maxPeriods\<close>, and the total. The rows are only built when \<open>hasLineScores\<close> holds,
  so no competitor is \<open>null\<close> there.
\<close>

definition table_row :: "js \<Rightarrow> nat \<Rightarrow> competitor option \<Rightarrow> string + string \<times> string list" where
  "table_row j maxPeriods t =
     (case t of
        None \<Rightarrow> Inl TYPE_ERROR
      | Some t' \<Rightarrow>
          (case period_cells j (periods_of t) of
             Inl err \<Rightarrow> Inl err
           | Inr byP \<Rightarrow>
               Inr (or_empty (case team_of t' of None \<Rightarrow> None
                              | Some tm \<Rightarrow> orelse (team_abbreviation tm)
                                             (team_shortDisplayName tm)),
                    byP @ replicate (maxPeriods - length byP) []
                        @ [String_int (floor (safeInt j (score t')))])))"

fun table_rows ::
  "js \<Rightarrow> nat \<Rightarrow> competitor option list \<Rightarrow> string + (string \<times> string list) list" where
  "table_rows j maxPeriods [] = Inr []"
| "table_rows j maxPeriods (t # ts) =
     (case table_row j maxPeriods t of
        Inl err \<Rightarrow> Inl err
      | Inr r \<Rightarrow>
          (case table_rows j maxPeriods ts of
             Inl err \<Rightarrow> Inl err
           | Inr rs \<Rightarrow> Inr (r # rs)))"

text \<open>\<open>xs?.[i]\<close> on an array: the entry, \<open>None\<close> past the end.\<close>

definition entry :: "'a option list \<Rightarrow> nat \<Rightarrow> 'a option" where
  "entry xs i = (if i < length xs then xs ! i else None)"

text \<open>\<open>buildLineScoreTable\<close>, called when \<open>hasLineScores\<close> holds.\<close>

definition buildLineScoreTable :: "js \<Rightarrow> competition \<Rightarrow> string + ls_table" where
  "buildLineScoreTable j cn =
     (let comps = competitors cn;
          maxPeriods = max (length (periods_of (entry comps 0)))
                           (length (periods_of (entry comps 1)));
          header = [[]] @ map (\<lambda>i. if i < 4 then ''Q'' @ nat_to_string (i + 1)
                                    else ''OT'' @ nat_to_string (i - 3)) [0..<maxPeriods]
                   @ [''T'']
      in case table_rows j maxPeriods comps of
           Inl err \<Rightarrow> Inl err
         | Inr rows \<Rightarrow> Inr \<lparr> ls_header = header, ls_rows = rows \<rparr>)"

text \<open>
  \<open>createCard\<close>, returning the card (or the TypeError thrown) and the state with the
  Live Set updated. The two competitor lookups come first and can throw; the line-score
  table is built after the Live Set is updated and can throw. A score cell shows
  \<open>String(safeInt(score))\<close>; \<open>safeInt\<close> yields an integral Number.
\<close>

definition createCard :: "js \<Rightarrow> app_state \<Rightarrow> event \<Rightarrow> (string + card) \<times> app_state" where
  "createCard j st e =
     (let c = first_competition e;
          stateStr = toLowerCase (or_empty (orelse
                       (case c of None \<Rightarrow> None | Some cn \<Rightarrow> comp_state cn) (ev_state e)))
      in case side_competitor c ''away'' 0 of
           Inl err \<Rightarrow> (Inl err, st)
         | Inr cAway \<Rightarrow>
             (case side_competitor c ''home'' 1 of
                Inl err \<Rightarrow> (Inl err, st)
              | Inr cHome \<Rightarrow>
                  (let homeSpread = parseHomeSpread (strnum j) c;
                       st' = (if stateStr = ''in''
                              then st\<lparr>liveEventIds := insert (ev_id e) (liveEventIds st)\<rparr>
                              else st);
                       showDash = (stateStr = ''pre'');
                       canRecord = (stateStr = ''pre'');
                       table = (case c of
                                  None \<Rightarrow> Inr None
                                | Some cn \<Rightarrow>
                                    (if hasLineScores c
                                     then (case buildLineScoreTable j cn of
                                             Inl err \<Rightarrow> Inl err
                                           | Inr t \<Rightarrow> Inr (Some t))
                                     else Inr None))
                   in case table of
                        Inl err \<Rightarrow> (Inl err, st')
                      | Inr tb \<Rightarrow>
                          (Inr \<lparr> card_class = (if stateStr = ''in'' then ''state-live''
                                               else if stateStr = ''post'' then ''state-final''
                                               else ''state-upcoming''),
                                 card_badge = (if stateStr = ''in'' then ''LIVE''
                                               else if stateStr = ''post'' then ''FINAL''
                                               else ''UPCOMING''),
                                 card_awaySuffix = spreadSuffixForSide homeSpread False,
                                 card_homeSuffix = spreadSuffixForSide homeSpread True,
                                 card_awayScore =
                                   (if showDash then EM_DASH
                                    else String_int (floor (safeInt j (score_of cAway)))),
                                 card_homeScore =
                                   (if showDash then EM_DASH
                                    else String_int (floor (safeInt j (score_of cHome)))),
                                 card_disabled = (\<not> canRecord),
                                 card_linescore = tb,
                                 card_eventId = ev_id e \<rparr>, st'))))"

text \<open>
  The loop \<open>for (const ev of list)\<close> that fills one card grid; it stops at the first
  card that throws.
\<close>

fun create_cards :: "js \<Rightarrow> app_state \<Rightarrow> event list \<Rightarrow> (string + card list) \<times> app_state" where
  "create_cards j st [] = (Inr [], st)"
| "create_cards j st (e # es) =
     (case createCard j st e of
        (Inl err, st1) \<Rightarrow> (Inl err, st1)
      | (Inr c, st1) \<Rightarrow>
          (case create_cards j st1 es of
             (Inl err, st2) \<Rightarrow> (Inl err, st2)
           | (Inr cs, st2) \<Rightarrow> (Inr (c # cs), st2)))"

text \<open>The object \<open>groups\<close>: its three arrays, keyed \<open>post\<close>, \<open>in\<close>, \<open>pre\<close>.\<close>

record groups =
  g_post :: "event list"
  g_in :: "event list"
  g_pre :: "event list"

text \<open>
  \<open>(groups[s] ?? groups.pre).push(e)\<close>. For a state that names an inherited property
  \<open>groups[s]\<close> is that object, which has no \<open>push\<close>: the call throws a TypeError.
\<close>

definition push_group :: "groups \<Rightarrow> event \<Rightarrow> string + groups" where
  "push_group g e =
     (let s = getState e
      in if s = ''post'' then Inr (g\<lparr>g_post := g_post g @ [e]\<rparr>)
         else if s = ''in'' then Inr (g\<lparr>g_in := g_in g @ [e]\<rparr>)
         else if s = ''pre'' then Inr (g\<lparr>g_pre := g_pre g @ [e]\<rparr>)
         else if inherited s then Inl TYPE_ERROR
         else Inr (g\<lparr>g_pre := g_pre g @ [e]\<rparr>))"

text \<open>The loop \<open>for (const e of events)\<close> that fills the groups.\<close>

fun group_loop :: "groups \<Rightarrow> event list \<Rightarrow> string + groups" where
  "group_loop g [] = Inr g"
| "group_loop g (e # es) =
     (case push_group g e of Inl err \<Rightarrow> Inl err | Inr g' \<Rightarrow> group_loop g' es)"

definition group_events :: "event list \<Rightarrow> string + groups" where
  "group_events events = group_loop \<lparr>g_post = [], g_in = [], g_pre = []\<rparr> events"

definition header_text :: "string \<Rightarrow> nat \<Rightarrow> string" where
  "header_text label n = label @ '' ('' @ nat_to_string n @ '')''"

text \<open>
  The loop over \<open>ORDER\<close>: an empty list is skipped; otherwise the header is appended to
  the grid container, the cards are created, and their grid is appended. When a card
  throws, the header is already in the container and the card grid is not.
\<close>

fun render_sections ::
  "js \<Rightarrow> node list \<Rightarrow> app_state \<Rightarrow> (string \<times> event list) list
     \<Rightarrow> outcome \<times> node list \<times> app_state" where
  "render_sections j nodes st [] = (Returned, nodes, st)"
| "render_sections j nodes st ((label, list) # rest) =
     (if list = [] then render_sections j nodes st rest
      else (let nodes1 = nodes @ [SectionHeader (header_text label (length list))]
            in case create_cards j st list of
                 (Inl err, st') \<Rightarrow> (Threw err, nodes1, st')
               | (Inr cs, st') \<Rightarrow> render_sections j (nodes1 @ [CardGrid cs]) st' rest))"

text \<open>
  \<open>renderEvents\<close>: the grid container and the Live Set are cleared first, whatever
  happens next.
\<close>

definition renderEvents :: "js \<Rightarrow> world \<Rightarrow> event list \<Rightarrow> outcome \<times> world" where
  "renderEvents j w events =
     (let w0 = w\<lparr>GRID := [], app := (app w)\<lparr>liveEventIds := {}\<rparr>\<rparr>
      in case group_events events of
           Inl err \<Rightarrow> (Threw err, w0)
         | Inr g \<Rightarrow>
             (let ORDER = [(''Final'', g_post g), (''Live'', g_in g), (''Upcoming'', g_pre g)];
                  (out, nodes, st') = render_sections j [] (app w0) ORDER
              in (out, w0\<lparr>app := st', GRID := nodes\<rparr>)))"

subsection \<open>The spec's wording of the rendered sections\<close>









subsection \<open>Sample data\<close>

definition world0 :: world where
  "world0 = \<lparr> app = state0, GRID = [], STATUS = NoStatus, WEEK_OPTIONS = [], wired = False,
     timers = {}, next_timer = 0, console = [], pending_loads = 0, pending_ticks = 0 \<rparr>"

text \<open>A live event whose away score is not a number and which has no home competitor.\<close>

definition live_event :: event where
  "live_event =
     \<lparr> ev_id = Some ''9'', ev_name = None, ev_shortName = None, ev_time = Some 0,
       ev_state = None,
       competitions = [\<lparr> comp_state = Some ''in'', comp_name = None,
                          competitors = [Some \<lparr> homeAway = Some ''away'',
                                                 score = Str ''abc'', team_of = None,
                                                 linescores = None \<rparr>],
                          odds = None \<rparr>] \<rparr>"


text \<open>A final event with two competitors and their line scores.\<close>

definition scored_event :: event where
  "scored_event =
     \<lparr> ev_id = Some ''5'', ev_name = None, ev_shortName = None, ev_time = Some 0,
       ev_state = None,
       competitions =
         [\<lparr> comp_state = Some ''post'', comp_name = None,
            competitors =
              [Some \<lparr> homeAway = Some ''home'', score = Str ''21'', team_of = None,
                      linescores = Some [Some \<lparr> ls_value = Num (Fin 7), ls_displayValue = Undefined,
                                                ls_score = Undefined \<rparr>,
                                         Some \<lparr> ls_value = Null, ls_displayValue = Str ''14'',
                                                ls_score = Undefined \<rparr>] \<rparr>,
               Some \<lparr> homeAway = Some ''away'', score = Str ''9007199254740993'',
                      team_of = None,
                      linescores = Some [Some \<lparr> ls_value = Undefined, ls_displayValue = Undefined,
                                                ls_score = Undefined \<rparr>] \<rparr>],
            odds = None \<rparr>] \<rparr>"

section \<open>Poll scheduler and load cycle\<close>

text \<open>
  What \<open>fetchJSON\<close> settles with: \<open>Inl\<close> is the rejection (network failure, a status
  that is not OK, a body that is not JSON), \<open>Inr\<close> the parsed body. \<open>sched_events\<close> is
  \<open>data?.events\<close> when that is an array.
\<close>

record schedule =
  sched_events :: "event list option"

definition clearInterval :: "nat option \<Rightarrow> world \<Rightarrow> world" where
  "clearInterval h w = (case h of None \<Rightarrow> w | Some i \<Rightarrow> w\<lparr>timers := timers w - {i}\<rparr>)"

definition setInterval :: "world \<Rightarrow> nat \<times> world" where
  "setInterval w =
     (next_timer w,
      w\<lparr>timers := insert (next_timer w) (timers w), next_timer := Suc (next_timer w)\<rparr>)"

text \<open>
  \<open>Array.isArray(data?.events) ? sortEvents(data.events) : []\<close>.
\<close>

definition events_of :: "js \<Rightarrow> schedule \<Rightarrow> event list" where
  "events_of j d = (case sched_events d of Some es \<Rightarrow> sortEvents j es | None \<Rightarrow> [])"

text \<open>
  \<open>loadWeek\<close> is an async function and runs in two turns of the event loop.
  \<open>loadWeek_begin\<close> is the part up to the \<open>await\<close>: it runs when \<open>loadWeek()\<close> is
  called. \<open>loadWeek_resume\<close> is the rest: it runs when the fetch settles, and other
  handlers may have run in between.
\<close>

definition loadWeek_begin :: "world \<Rightarrow> world" where
  "loadWeek_begin w =
     (let w1 = clearInterval (refreshTimer (app w)) w
      in w1\<lparr> app := (app w1)\<lparr>liveEventIds := {}\<rparr>,
             STATUS := LoadingWeek (week (app w1)),
             GRID := [],
             pending_loads := Suc (pending_loads w1) \<rparr>)"

definition loadWeek_resume :: "js \<Rightarrow> world \<Rightarrow> string + schedule \<Rightarrow> outcome \<times> world" where
  "loadWeek_resume j w resp =
     (case resp of
        Inl err \<Rightarrow> (Threw err, w)
      | Inr d \<Rightarrow>
          (let events = events_of j d
           in if events = [] then (Returned, w\<lparr>STATUS := NoGamesFound (week (app w))\<rparr>)
              else (let w1 = w\<lparr>STATUS := Showing (length events) (week (app w))\<rparr>;
                        (out, w2) = renderEvents j w1 events
                    in case out of
                         Threw err \<Rightarrow> (Threw err, w2)
                       | Returned \<Rightarrow>
                           (if liveEventIds (app w2) \<noteq> {}
                            then (let (h, w3) = setInterval w2
                                  in (Returned, w3\<lparr>app := (app w3)\<lparr>refreshTimer := Some h\<rparr>\<rparr>))
                            else (Returned, w2)))))"

text \<open>A load cycle during which nothing else runs.\<close>

definition loadWeek :: "js \<Rightarrow> world \<Rightarrow> string + schedule \<Rightarrow> outcome \<times> world" where
  "loadWeek j w resp =
     (let w1 = loadWeek_begin w
      in loadWeek_resume j (w1\<lparr>pending_loads := pending_loads w1 - 1\<rparr>) resp)"

text \<open>
  \<open>refreshLive\<close>, from the moment its fetch settles (before the \<open>await\<close> it only
  builds the URL). The whole body is inside \<open>try\<close>, so it always returns: a rejected
  fetch and an error thrown while rendering both end in the \<open>catch\<close>.
\<close>

definition refreshLive :: "js \<Rightarrow> world \<Rightarrow> string + schedule \<Rightarrow> outcome \<times> world" where
  "refreshLive j w resp =
     (case resp of
        Inl err \<Rightarrow> (Returned, w\<lparr>console := console w @ [ConsoleWarn err]\<rparr>)
      | Inr d \<Rightarrow>
          (let events = events_of j d;
               (out, w1) = renderEvents j w events
           in case out of
                Threw err \<Rightarrow> (Returned, w1\<lparr>console := console w1 @ [ConsoleWarn err]\<rparr>)
              | Returned \<Rightarrow>
                  (if liveEventIds (app w1) = {}
                   then (Returned, clearInterval (refreshTimer (app w1)) w1)
                   else (Returned, w1))))"

section \<open>Startup and navigation\<close>

text \<open>
  The fields of the detection response that \<open>init\<close> reads. \<open>cal_label\<close> is the label
  when it is a string, \<open>cal_entries\<close> the length of \<open>entries\<close> when present;
  \<open>det_calendar\<close> is empty when \<open>calendar\<close> is not an array. Week numbers are integers.
\<close>

record calendar_entry =
  cal_label :: "string option"
  cal_entries :: "nat option"

record detection =
  det_year :: "int option"
  det_league_week :: "int option"
  det_base_week :: "int option"
  det_calendar :: "calendar_entry list"

text \<open>\<open>a || b\<close> on optional numbers: an absent number and zero are falsy.\<close>

definition or_num :: "int option \<Rightarrow> int option \<Rightarrow> int option" where
  "or_num a b = (case a of None \<Rightarrow> b | Some n \<Rightarrow> (if n = 0 then b else Some n))"

fun has_infix :: "string \<Rightarrow> string \<Rightarrow> bool" where
  "has_infix p [] = (p = [])"
| "has_infix p (c # cs) = (take (length p) (c # cs) = p \<or> has_infix p cs)"

text \<open>\<open>/regular/i.test(s)\<close>.\<close>

definition test_regular :: "string \<Rightarrow> bool" where
  "test_regular s = has_infix ''regular'' (map lower_char s)"

definition clamp :: "int \<Rightarrow> int \<Rightarrow> int \<Rightarrow> int" where
  "clamp n lo hi = max lo (min hi n)"

definition init_begin :: "world \<Rightarrow> world" where
  "init_begin w = w\<lparr>STATUS := LoadingCurrentWeek\<rparr>"

text \<open>
  \<open>init\<close> from the moment the detection fetch settles, up to its call of
  \<open>loadWeek()\<close>; \<open>thisYear\<close> is \<open>new Date().getFullYear()\<close>.
\<close>

definition init_settles :: "int \<Rightarrow> world \<Rightarrow> string + detection \<Rightarrow> world" where
  "init_settles thisYear w resp =
     (case resp of
        Inl err \<Rightarrow> w\<lparr>console := console w @ [ConsoleError err], STATUS := FailedToLoad\<rparr>
      | Inr base \<Rightarrow>
          (let currentWeek = or_num (det_league_week base) (det_base_week base);
               year = (case or_num (det_year base) None of Some y \<Rightarrow> y | None \<Rightarrow> thisYear);
               regSeasonEntry =
                 find (\<lambda>c. case cal_label c of None \<Rightarrow> False | Some l \<Rightarrow> test_regular l)
                   (det_calendar base);
               mw = (case regSeasonEntry of
                       None \<Rightarrow> maxWeeks (app w)
                     | Some c \<Rightarrow>
                         (case cal_entries c of
                            None \<Rightarrow> maxWeeks (app w)
                          | Some n \<Rightarrow> if n = 0 then maxWeeks (app w) else int n));
               wk = clamp (case or_num currentWeek (Some 1) of Some n \<Rightarrow> n | None \<Rightarrow> 1) 1 mw;
               w1 = w\<lparr> app := (app w)\<lparr>seasonYear := Some year, maxWeeks := mw, week := Some wk\<rparr>,
                       WEEK_OPTIONS := [1..mw],
                       wired := True \<rparr>
           in loadWeek_begin w1))"

text \<open>\<open>init\<close>'s \<open>catch\<close>.\<close>

definition init_catch :: "string \<Rightarrow> world \<Rightarrow> world" where
  "init_catch err w = w\<lparr>console := console w @ [ConsoleError err], STATUS := FailedToLoad\<rparr>"

text \<open>The week selector's change handler; \<open>v\<close> is the value of the option chosen.\<close>

definition on_change :: "int \<Rightarrow> world \<Rightarrow> world" where
  "on_change v w = loadWeek_begin (w\<lparr>app := (app w)\<lparr>week := Some v\<rparr>\<rparr>)"

text \<open>A \<open>null\<close> week compares and counts as zero.\<close>

definition week_num :: "int option \<Rightarrow> int" where
  "week_num k = (case k of None \<Rightarrow> 0 | Some n \<Rightarrow> n)"

definition on_prev :: "world \<Rightarrow> world" where
  "on_prev w =
     (if week_num (week (app w)) > 1
      then loadWeek_begin (w\<lparr>app := (app w)\<lparr>week := Some (week_num (week (app w)) - 1)\<rparr>\<rparr>)
      else w)"

definition on_next :: "world \<Rightarrow> world" where
  "on_next w =
     (if week_num (week (app w)) < maxWeeks (app w)
      then loadWeek_begin (w\<lparr>app := (app w)\<lparr>week := Some (week_num (week (app w)) + 1)\<rparr>\<rparr>)
      else w)"

text \<open>
  The turns of the event loop. A change event delivers one of the selector's options;
  the controls react once they are wired; a suspended \<open>loadWeek\<close> or \<open>refreshLive\<close>
  resumes when its fetch settles, in any order; an active interval timer fires and
  starts \<open>refreshLive\<close>. \<open>LoadSettles True\<close> is the load awaited by \<open>init\<close>.
\<close>

datatype action =
    ChangeWeek int
  | PrevClick
  | NextClick
  | RefreshClick
  | LoadSettles bool "string + schedule"
  | TimerFires nat
  | TickSettles "string + schedule"

definition step :: "js \<Rightarrow> world \<Rightarrow> action \<Rightarrow> world" where
  "step j w a =
     (case a of
        ChangeWeek v \<Rightarrow> (if wired w \<and> v \<in> set (WEEK_OPTIONS w) then on_change v w else w)
      | PrevClick \<Rightarrow> (if wired w then on_prev w else w)
      | NextClick \<Rightarrow> (if wired w then on_next w else w)
      | RefreshClick \<Rightarrow> (if wired w then loadWeek_begin w else w)
      | LoadSettles byInit resp \<Rightarrow>
          (if pending_loads w = 0 then w
           else (let (out, w') = loadWeek_resume j (w\<lparr>pending_loads := pending_loads w - 1\<rparr>) resp
                 in case out of
                      Returned \<Rightarrow> w'
                    | Threw err \<Rightarrow> (if byInit then init_catch err w' else w')))
      | TimerFires i \<Rightarrow>
          (if i \<in> timers w then w\<lparr>pending_ticks := Suc (pending_ticks w)\<rparr> else w)
      | TickSettles resp \<Rightarrow>
          (if pending_ticks w = 0 then w
           else snd (refreshLive j (w\<lparr>pending_ticks := pending_ticks w - 1\<rparr>) resp)))"

definition run :: "js \<Rightarrow> world \<Rightarrow> action list \<Rightarrow> world" where
  "run j w acts = foldl (step j) w acts"

text \<open>The scheduler is Polling when some interval timer is active.\<close>

definition polling :: "world \<Rightarrow> bool" where
  "polling w = (timers w \<noteq> {})"

text \<open>A schedule with one live game, and the world after a successful startup.\<close>

definition live_schedule :: schedule where
  "live_schedule = \<lparr> sched_events = Some [live_event] \<rparr>"

definition final_schedule :: schedule where
  "final_schedule = \<lparr> sched_events = Some [mk_event ''9'' ''post'' 0] \<rparr>"

definition sample_detection :: detection where
  "sample_detection =
     \<lparr> det_year = Some 2025, det_league_week = Some 3, det_base_week = None,
       det_calendar = [\<lparr> cal_label = Some ''Preseason'', cal_entries = Some 4 \<rparr>,
                       \<lparr> cal_label = Some ''Regular Season'', cal_entries = Some 18 \<rparr>] \<rparr>"

definition started :: world where
  "started = init_settles 2025 (init_begin world0) (Inr sample_detection)"

text \<open>
  The navigation invariant: the controls are wired, the selector offers the weeks from
  1 to \<open>maxWeeks\<close>, and the week is set and lies in that range.
\<close>

definition nav_inv :: "world \<Rightarrow> bool" where
  "nav_inv w = (wired w \<and> WEEK_OPTIONS w = [1..maxWeeks (app w)]
      \<and> (\<exists>k. week (app w) = Some k \<and> 1 \<le> k \<and> k \<le> maxWeeks (app w)))"

text \<open>
  Two clicks on Next before the first load's fetch settles, both fetches then
  returning a schedule with a live game; and the same followed by a poll tick whose
  schedule has no live game.
\<close>

definition overlapping_loads :: "action list" where
  "overlapping_loads =
     [LoadSettles True (Inr final_schedule), NextClick, NextClick,
      LoadSettles False (Inr live_schedule), LoadSettles False (Inr live_schedule)]"

definition overlapping_loads_then_tick :: "action list" where
  "overlapping_loads_then_tick =
     overlapping_loads @ [TimerFires 1, TickSettles (Inr final_schedule)]"

text \<open>
  No timer is active other than the one whose handle is in \<open>state.refreshTimer\<close>.
\<close>

definition slot_inv :: "world \<Rightarrow> bool" where
  "slot_inv w = (timers w \<subseteq> (case refreshTimer (app w) of None \<Rightarrow> {} | Some h \<Rightarrow> {h}))"

section \<open>Decimal rendering: auxiliary facts\<close>

lemma lt10: "(d::nat) < 10 \<Longrightarrow> d \<in> {0,1,2,3,4,5,6,7,8,9}"
  by auto

lemma dc0: "d < 10 \<Longrightarrow> (digit_char d = CHR ''0'') = (d = 0)"
  using lt10[of d] by (auto simp: digit_char_def)

lemma nts_step: "10 \<le> t \<Longrightarrow> nat_to_string t = nat_to_string (t div 10) @ [digit_char (t mod 10)]"
  by (subst nat_to_string.simps) simp

lemma nts_small: "t < 10 \<Longrightarrow> nat_to_string t = [digit_char t]"
  by (subst nat_to_string.simps) simp

lemma nts_len: "length (nat_to_string t) \<le> 1 \<longleftrightarrow> t < 10"
proof (cases "t < 10")
  case True then show ?thesis by (simp add: nts_small)
next
  case False
  then have "nat_to_string t = nat_to_string (t div 10) @ [digit_char (t mod 10)]" by (simp add: nts_step)
  moreover have "nat_to_string (t div 10) \<noteq> []" by (subst nat_to_string.simps) simp
  ultimately show ?thesis using False by (cases "nat_to_string (t div 10)") auto
qed

lemma toFixed1_pos:
  assumes "0 \<le> a" "a < 10 ^ 21"
  shows "toFixed1 a = (let t = nat (floor (a * 10 + 1 / 2)) in nat_to_string (t div 10) @ ''.'' @ [digit_char (t mod 10)])"
proof -
  define t where "t = nat (floor (a * 10 + 1 / 2))"
  show ?thesis
  proof (cases "t < 10")
    case True
    then have "nat_to_string t = [digit_char t]" "nat_to_string (t div 10) = [digit_char 0]" by (simp_all add: nts_small)
    then show ?thesis using assms True by (simp add: toFixed1_def Let_def t_def[symmetric] digit_char_def)
  next
    case False
    then have s: "nat_to_string t = nat_to_string (t div 10) @ [digit_char (t mod 10)]" by (simp add: nts_step)
    have "\<not> length (nat_to_string t) \<le> 1" using False nts_len by blast
    then show ?thesis using assms False 
      by (simp add: toFixed1_def Let_def t_def[symmetric]) (simp add: s)
  qed
qed


lemma strip_dot0_app: "strip_dot0 (p @ ''.'' @ [c]) = (if c = CHR ''0'' then p else p @ ''.'' @ [c])"
  by (simp add: strip_dot0_def)

lemma toFixed1_neg:
  assumes "a < 0" "- a < 10 ^ 21"
  shows "toFixed1 a = ''-'' @ toFixed1 (- a)"
  using assms by (simp add: toFixed1_def Let_def)

lemma isIntegerD: "isInteger a \<Longrightarrow> a = of_int (floor a)"
  unfolding isInteger_def by (rule sym)

lemma one_decimal_int: "0 \<le> i \<Longrightarrow> one_decimal_trimmed (of_int i) = nat_to_string (nat i)"
proof -
  assume i: "0 \<le> i"
  have "floor ((of_int i :: rat) * 10 + 1 / 2) = i * 10"
    by (rule floor_unique) simp_all
  then have "nat (floor ((of_int i :: rat) * 10 + 1 / 2)) = nat i * 10"
    using i by (simp add: nat_mult_distrib)
  then show ?thesis by (simp add: one_decimal_trimmed_def)
qed

lemma prettyNum_pos:
  assumes "0 \<le> a" "a < 2 ^ 53"
  shows "prettyNum a = one_decimal_trimmed a"
proof (cases "isInteger a")
  case True
  then have e: "a = of_int (floor a)" by (rule isIntegerD)
  have f0: "0 \<le> floor a" using assms by simp
  have "floor a < 2 ^ 53" using assms by (simp add: floor_less_iff)
  then have "prettyNum a = nat_to_string (nat (floor a))"
    using True f0 by (simp add: prettyNum_def String_int_def)
  also have "\<dots> = one_decimal_trimmed (of_int (floor a))" using f0 by (simp add: one_decimal_int)
  finally show ?thesis using e by simp
next
  case False
  define t where "t = nat (floor (a * 10 + 1 / 2))"
  have d: "t mod 10 < 10" by simp
  have "(2::rat) ^ 53 < 10 ^ 21" by simp
  with assms have b21: "a < 10 ^ 21" by linarith
  have "prettyNum a = strip_dot0 (nat_to_string (t div 10) @ ''.'' @ [digit_char (t mod 10)])"
    using False assms b21 by (simp add: prettyNum_def toFixed1_pos t_def Let_def)
  also have "\<dots> = one_decimal_trimmed a"
    unfolding strip_dot0_app using dc0[OF d] by (simp add: one_decimal_trimmed_def t_def Let_def)
  finally show ?thesis .
qed

lemma isInteger_minus: "isInteger (- a) = isInteger a"
proof -
  have "isInteger x \<Longrightarrow> isInteger (- x)" for x :: rat
  proof -
    assume "isInteger x"
    then have "x = of_int (floor x)" by (rule isIntegerD)
    then have "- x = of_int (- floor x)" by simp
    then have "of_int (floor (- x)) = - x" by (metis floor_of_int)
    then show ?thesis unfolding isInteger_def .
  qed
  from this[of a] this[of "- a"] show ?thesis by auto
qed

lemma prettyNum_neg:
  assumes "a < 0" "- a < 2 ^ 53"
  shows "prettyNum a = ''-'' @ one_decimal_trimmed (- a)"
proof (cases "isInteger a")
  case True
  then have e: "a = of_int (floor a)" by (rule isIntegerD)
  then have fl: "floor (- a) = - floor a" by (metis floor_of_int of_int_minus)
  have f0: "floor a < 0" using assms e by (metis of_int_less_0_iff)
  have "floor (- a) < 2 ^ 53" using assms by (simp add: floor_less_iff)
  then have "\<bar>floor a\<bar> < 2 ^ 53" using f0 fl by simp
  then have "prettyNum a = ''-'' @ nat_to_string (nat (- floor a))"
    using True f0 by (simp add: prettyNum_def String_int_def)
  also have "\<dots> = ''-'' @ one_decimal_trimmed (of_int (- floor a))" using f0 by (simp add: one_decimal_int del: of_int_minus)
  finally show ?thesis using e by simp
next
  case False
  then have "\<not> isInteger (- a)" by (simp add: isInteger_minus)
  then have "prettyNum (- a) = strip_dot0 (toFixed1 (- a))" by (simp add: prettyNum_def)
  then have p: "strip_dot0 (toFixed1 (- a)) = one_decimal_trimmed (- a)"
    using prettyNum_pos[of "- a"] assms by simp
  define t where "t = nat (floor (- a * 10 + 1 / 2))"
  have d: "t mod 10 < 10" by simp
  have "(2::rat) ^ 53 < 10 ^ 21" by simp
  with assms have b21: "- a < 10 ^ 21" by linarith
  have tf: "toFixed1 (- a) = nat_to_string (t div 10) @ ''.'' @ [digit_char (t mod 10)]"
    using assms b21 by (simp add: toFixed1_pos t_def Let_def)
  have "prettyNum a = strip_dot0 (''-'' @ toFixed1 (- a))"
    using False assms b21 by (simp add: prettyNum_def toFixed1_neg)
  also have "\<dots> = strip_dot0 ((''-'' @ nat_to_string (t div 10)) @ ''.'' @ [digit_char (t mod 10)])"
    by (simp add: tf)
  also have "\<dots> = ''-'' @ strip_dot0 (nat_to_string (t div 10) @ ''.'' @ [digit_char (t mod 10)])"
    unfolding strip_dot0_app by simp
  also have "\<dots> = ''-'' @ one_decimal_trimmed (- a)" using p tf by simp
  finally show ?thesis .
qed

lemma is_double_large_integer:
  assumes "is_double s" "2 ^ 53 \<le> \<bar>s\<bar>"
  shows "isInteger s"
proof -
  from assms(1) obtain m :: int and a b :: nat
    where m: "\<bar>m\<bar> < 2 ^ 53" and s: "s = of_int m * 2 ^ a / 2 ^ b"
    unfolding is_double_def by blast
  have ab: "b < a"
  proof (rule ccontr)
    assume "\<not> b < a"
    then have "a \<le> b" by simp
    then have "(2::rat) ^ a \<le> 2 ^ b" by (simp add: power_increasing)
    then have "(2::rat) ^ a / 2 ^ b \<le> 1" by (simp add: divide_le_eq)
    then have "\<bar>of_int m :: rat\<bar> * (2 ^ a / 2 ^ b) \<le> \<bar>of_int m\<bar> * 1"
      by (intro mult_left_mono) simp_all
    moreover have "\<bar>s\<bar> = \<bar>of_int m :: rat\<bar> * (2 ^ a / 2 ^ b)"
      by (simp add: s abs_mult)
    moreover have "\<bar>of_int m :: rat\<bar> < 2 ^ 53"
    proof -
      have "(of_int \<bar>m\<bar> :: rat) < of_int (2 ^ 53)" using m by (simp only: of_int_less_iff)
      then show ?thesis by simp
    qed
    ultimately show False using assms(2) by linarith
  qed
  then have pd: "(2::rat) ^ a / 2 ^ b = 2 ^ (a - b)"
    by (simp add: power_diff)
  have "s = of_int m * ((2::rat) ^ a / 2 ^ b)" by (simp add: s)
  also have "\<dots> = of_int m * 2 ^ (a - b)" by (simp only: pd)
  also have "\<dots> = of_int (m * 2 ^ (a - b))" by simp
  finally have "s = of_int (m * 2 ^ (a - b))" .
  then have "of_int (floor s) = s" by (metis floor_of_int)
  then show ?thesis unfolding isInteger_def .
qed

lemma is_doubleI:
  assumes "\<bar>m\<bar> < 2 ^ 53" "a \<le> 971" "b \<le> 1074" "x = of_int m * 2 ^ a / 2 ^ b"
  shows "is_double x"
  unfolding is_double_def using assms by blast

lemma String_int_minus:
  assumes "0 < i"
  shows "String_int (- i) = ''-'' @ String_int i"
  using assms by (simp add: String_int_def)

lemma prettyNum_integer:
  assumes "isInteger v"
  shows "prettyNum v = String_int (floor v)"
  using assms by (simp add: prettyNum_def)

section \<open>Spread calculator and pick recorder: results\<close>

text \<open>
  C1. With no odds data the spread suffix of both sides is empty, and the claim asks for
  a payload spread of \<open>null\<close> for either selected side. At the event
  \<open>no_odds_event\<close> the suffixes are empty and a home pick posts \<open>null\<close>, but an away
  pick posts the number zero: the payload negates the \<open>null\<close> instead of using the
  guarded local \<open>spread\<close>.
\<close>

theorem recordPick_no_odds_away_posts_zero:
  "spreadSuffixForSide (parseHomeSpread sn (first_competition no_odds_event)) True = []
   \<and> spreadSuffixForSide (parseHomeSpread sn (first_competition no_odds_event)) False = []
   \<and> (\<exists>p. recordPick sn state0 no_odds_event ''B'' ''home'' = Inr p \<and> p_spread p = None)
   \<and> (\<exists>p. recordPick sn state0 no_odds_event ''A'' ''away'' = Inr p \<and> p_spread p = Some 0)"
  by (simp add: recordPick_def no_odds_event_def first_competition_def parseHomeSpread_def
      first_spread_def Number_js_def neg_nullable_def spreadSuffixForSide_def Let_def
      side_competitor_def)

text \<open>
  What \<open>parseHomeSpread\<close> does return \<open>null\<close> for: no competition, no odds array, an
  empty odds array, a first entry without a spread, and any spread that converts to a
  Number that is not finite.
\<close>

lemma parseHomeSpread_absent:
  "parseHomeSpread sn None = None"
  "odds c = None \<Longrightarrow> parseHomeSpread sn (Some c) = None"
  "odds c = Some [] \<Longrightarrow> parseHomeSpread sn (Some c) = None"
  "odds c = Some (e # es) \<Longrightarrow> spread e = Undefined \<Longrightarrow> parseHomeSpread sn (Some c) = None"
  "odds c = Some (e # es) \<Longrightarrow> spread e = Num (Fin x) \<Longrightarrow> parseHomeSpread sn (Some c) = Some x"
  by (simp_all add: parseHomeSpread_def first_spread_def Number_js_def)

lemma recordPick_spread:
  assumes "recordPick sn st e nm sel = Inr p"
  shows "p_spread p =
     (let h = parseHomeSpread sn (first_competition e)
      in if sel = ''home'' then h else Some (case h of None \<Rightarrow> 0 | Some x \<Rightarrow> - x))"
  using assms
  by (auto simp: recordPick_def Let_def neg_nullable_def split: option.splits sum.splits)

text \<open>
  C2. The claim asks for \<open>null\<close> when the first odds entry's spread is \<open>null\<close> or a
  string that is not a number. The conversion \<open>Number(null)\<close> is zero, and so is
  \<open>Number("")\<close>; zero is finite, so \<open>parseHomeSpread\<close> returns the number zero there
  (and the card shows a pick'em).
\<close>

theorem parseHomeSpread_null_spread_is_zero:
  "parseHomeSpread sn (Some null_spread_competition) = Some 0
   \<and> spreadSuffixForSide (parseHomeSpread sn (Some null_spread_competition)) True = '' (PK)''
   \<and> parseHomeSpread sn (Some empty_spread_competition) = Some 0"
  by (simp add: parseHomeSpread_def first_spread_def null_spread_competition_def Number_js_def
      spreadSuffixForSide_def sideSpread_def EPS_def empty_spread_competition_def
      trim_start.simps)

text \<open>
  C3, as the claim states it, fails on large spreads. \<open>10^21\<close> and \<open>2^60\<close> are Numbers.
  At \<open>10^21\<close> the suffix is in exponent notation, not the value to one decimal place;
  at \<open>2^60\<close> the digits shown are the shortest that read back as the Number, padded
  with zeros, not the digits of the value.
\<close>

theorem spread_suffix_large_counterexample:
  "is_double (10 ^ 21)
   \<and> spreadSuffixForSide (Some (10 ^ 21)) True = '' (+1e+21)''
   \<and> '' (+'' @ one_decimal_trimmed (10 ^ 21) @ '')'' = '' (+1000000000000000000000)''
   \<and> is_double (2 ^ 60)
   \<and> spreadSuffixForSide (Some (2 ^ 60)) True = '' (+1152921504606847000)''
   \<and> '' (+'' @ one_decimal_trimmed (2 ^ 60) @ '')'' = '' (+1152921504606846976)''"
proof -
  have a: "is_double (10 ^ 21)"
    by (rule is_doubleI[of 476837158203125 21 0]) simp_all
  have b: "is_double (2 ^ 60)"
    by (rule is_doubleI[of 1 60 0]) simp_all
  have c: "spreadSuffixForSide (Some (10 ^ 21)) True = '' (+1e+21)''" by code_simp
  have d0: "nat_to_string 1000000000000000000000 = ''1000000000000000000000''"
    by (simp add: nat_to_string.simps digit_char_def)
  have "one_decimal_trimmed (of_int (10 ^ 21)) = nat_to_string (nat (10 ^ 21))"
    by (rule one_decimal_int) simp
  then have d: "'' (+'' @ one_decimal_trimmed (10 ^ 21) @ '')'' = '' (+1000000000000000000000)''"
    by (simp add: d0)
  have e: "spreadSuffixForSide (Some (2 ^ 60)) True = '' (+1152921504606847000)''" by code_simp
  have d1: "nat_to_string 1152921504606846976 = ''1152921504606846976''"
    by (simp add: nat_to_string.simps digit_char_def)
  have "one_decimal_trimmed (of_int (2 ^ 60)) = nat_to_string (nat (2 ^ 60))"
    by (rule one_decimal_int) simp
  then have f: "'' (+'' @ one_decimal_trimmed (2 ^ 60) @ '')'' = '' (+1152921504606846976)''"
    by (simp add: d1)
  from a b c d e f show ?thesis by blast
qed

text \<open>
  C3, amended. For every non-null home spread \<open>s\<close> (a Number) the away side's value is
  the negation of the home side's. A side value of magnitude below the epsilon gives
  the suffix \<open>" (PK)"\<close>. A side value of greater magnitude, below \<open>2^53\<close>, gives
  \<open>" (+N)"\<close> when positive and \<open>" (-N)"\<close> when negative, \<open>N\<close> being the magnitude to at
  most one decimal place with a trailing \<open>.0\<close> trimmed. From \<open>2^53\<close> on the value is an
  integer and \<open>N\<close> is \<open>String\<close> of its magnitude.
\<close>

theorem spread_symmetry_and_suffix:
  assumes "is_double s"
  shows "sideSpread s False = - sideSpread s True
    \<and> (\<forall>isHome.
          spreadSuffixForSide (Some s) isHome =
            (let v = sideSpread s isHome;
                 N = (if \<bar>v\<bar> < 2 ^ 53 then one_decimal_trimmed \<bar>v\<bar> else String_int (floor \<bar>v\<bar>))
             in if \<bar>v\<bar> < EPS then '' (PK)''
                else if v > 0 then '' (+'' @ N @ '')''
                else '' (-'' @ N @ '')''))"
proof -
  have sym: "sideSpread s False = - sideSpread s True"
    by (simp add: sideSpread_def)
  have fmt: "spreadSuffixForSide (Some s) isHome =
            (let v = sideSpread s isHome;
                 N = (if \<bar>v\<bar> < 2 ^ 53 then one_decimal_trimmed \<bar>v\<bar> else String_int (floor \<bar>v\<bar>))
             in if \<bar>v\<bar> < EPS then '' (PK)''
                else if v > 0 then '' (+'' @ N @ '')''
                else '' (-'' @ N @ '')'')" for isHome
  proof -
    define v where "v = sideSpread s isHome"
    have av: "\<bar>v\<bar> = \<bar>s\<bar>" by (simp add: v_def sideSpread_def)
    have ep: "0 < EPS" by (simp add: EPS_def)
    consider "\<bar>v\<bar> < EPS" | "\<not> \<bar>v\<bar> < EPS" "v > 0" | "\<not> \<bar>v\<bar> < EPS" "v < 0"
      using ep by (cases "v = 0"; cases "v > 0") auto
    then show ?thesis
    proof cases
      case 1
      then show ?thesis by (simp add: spreadSuffixForSide_def v_def[symmetric] Let_def)
    next
      case 2
      show ?thesis
      proof (cases "\<bar>v\<bar> < 2 ^ 53")
        case True
        then have "prettyNum v = one_decimal_trimmed v" using 2 by (simp add: prettyNum_pos)
        then show ?thesis using 2 True
          by (simp add: spreadSuffixForSide_def v_def[symmetric] Let_def)
      next
        case False
        then have "isInteger s" using assms av by (intro is_double_large_integer) simp_all
        then have "isInteger v" by (simp add: v_def sideSpread_def isInteger_minus)
        then have "prettyNum v = String_int (floor v)" by (rule prettyNum_integer)
        then show ?thesis using 2 False
          by (simp add: spreadSuffixForSide_def v_def[symmetric] Let_def)
      qed
    next
      case 3
      show ?thesis
      proof (cases "\<bar>v\<bar> < 2 ^ 53")
        case True
        then have "prettyNum v = ''-'' @ one_decimal_trimmed (- v)"
          using 3 by (simp add: prettyNum_neg)
        then show ?thesis using 3 True
          by (simp add: spreadSuffixForSide_def v_def[symmetric] Let_def)
      next
        case False
        then have "isInteger s" using assms av by (intro is_double_large_integer) simp_all
        then have iv: "isInteger v" by (simp add: v_def sideSpread_def isInteger_minus)
        then have vi: "v = of_int (floor v)" by (rule isIntegerD)
        have fneg: "floor (- v) = - floor v"
          using vi by (metis floor_of_int of_int_minus)
        have "floor v < 0" using 3 vi by (metis of_int_less_0_iff)
        then have "String_int (floor v) = ''-'' @ String_int (floor (- v))"
          using String_int_minus[of "- floor v"] by (simp add: fneg)
        moreover have "prettyNum v = String_int (floor v)" using iv by (rule prettyNum_integer)
        ultimately show ?thesis using 3 False
          by (simp add: spreadSuffixForSide_def v_def[symmetric] Let_def)
      qed
    qed
  qed
  from sym fmt show ?thesis by blast
qed

theorem spread_symmetry_and_suffix_witness:
  "is_double (- 7 / 2)
   \<and> sideSpread (- 7 / 2) False = - sideSpread (- 7 / 2) True
   \<and> spreadSuffixForSide (Some (- 7 / 2)) True = '' (-3.5)''
   \<and> spreadSuffixForSide (Some (- 7 / 2)) False = '' (+3.5)''"
proof -
  have h: "is_double (- 7 / 2)"
    by (rule is_doubleI[of "- 7" 0 1]) simp_all
  have d: "one_decimal_trimmed (7 / 2) = ''3.5''" by code_simp
  have e: "\<not> \<bar>7 / 2 :: rat\<bar> < EPS" by (simp add: EPS_def)
  have b: "\<bar>7 / 2 :: rat\<bar> < 2 ^ 53" by simp
  from spread_symmetry_and_suffix [OF h]
  have s: "sideSpread (- 7 / 2) False = - sideSpread (- 7 / 2) True"
    and t: "spreadSuffixForSide (Some (- 7 / 2)) True =
            (let v = sideSpread (- 7 / 2) True;
                 N = (if \<bar>v\<bar> < 2 ^ 53 then one_decimal_trimmed \<bar>v\<bar> else String_int (floor \<bar>v\<bar>))
             in if \<bar>v\<bar> < EPS then '' (PK)''
                else if v > 0 then '' (+'' @ N @ '')''
                else '' (-'' @ N @ '')'')"
    and f: "spreadSuffixForSide (Some (- 7 / 2)) False =
            (let v = sideSpread (- 7 / 2) False;
                 N = (if \<bar>v\<bar> < 2 ^ 53 then one_decimal_trimmed \<bar>v\<bar> else String_int (floor \<bar>v\<bar>))
             in if \<bar>v\<bar> < EPS then '' (PK)''
                else if v > 0 then '' (+'' @ N @ '')''
                else '' (-'' @ N @ '')'')"
    by blast+
  from t have t': "spreadSuffixForSide (Some (- 7 / 2)) True = '' (-3.5)''"
    using d e b by (simp add: sideSpread_def Let_def)
  from f have f': "spreadSuffixForSide (Some (- 7 / 2)) False = '' (+3.5)''"
    using d e b by (simp add: sideSpread_def Let_def)
  from h s t' f' show ?thesis by blast
qed

text \<open>
  The Number that the literal \<open>0.15\<close> denotes lies below \<open>15/100\<close>, and \<open>toFixed\<close>
  rounds its exact value: the suffix is \<open>" (+0.1)"\<close>.
\<close>

lemma spread_suffix_0_15: "spreadSuffixForSide (Some DOUBLE_0_15) True = '' (+0.1)''"
  by code_simp

section \<open>Event classifier: results\<close>

lemma getState_spec: "getState e = spec_state e"
  by (simp add: getState_def spec_state_def first_competition_def orelse_def truthy_def
      or_empty_def Let_def split: list.splits option.splits)

lemma priority_rank:
  assumes "\<not> inherited (getState e)"
  shows "priority e = Rank (spec_rank e)"
  using assms
  by (simp add: priority_def spec_rank_def getState_spec[symmetric] STATUS_ORDER_def Let_def)

lemma compareEvents_keyed:
  assumes "well_keyed a" "well_keyed b"
  shows "compareEvents a b =
           Fin (of_int (if spec_rank a \<noteq> spec_rank b then spec_rank a - spec_rank b
                        else kickoff a - kickoff b))"
proof -
  from assms obtain ta tb where t: "ev_time a = Some ta" "ev_time b = Some tb"
    by (auto simp: well_keyed_def)
  have p: "priority a = Rank (spec_rank a)" "priority b = Rank (spec_rank b)"
    using assms by (simp_all add: well_keyed_def priority_rank)
  show ?thesis by (simp add: compareEvents_def p t kickoff_def Let_def)
qed

lemma SortCompare_keyed:
  assumes "well_keyed a" "well_keyed b"
  shows "SortCompare compareEvents a b =
           of_int (if spec_rank a \<noteq> spec_rank b then spec_rank a - spec_rank b
                   else kickoff a - kickoff b)"
  by (simp add: SortCompare_def compareEvents_keyed[OF assms])

lemma SortCompare_signs:
  assumes "well_keyed a" "well_keyed b"
  shows "(SortCompare compareEvents a b \<le> 0)
           = ((spec_rank a, kickoff a) \<le> (spec_rank b, kickoff b))"
    and "(SortCompare compareEvents a b = 0)
           = ((spec_rank a, kickoff a) = (spec_rank b, kickoff b))"
    and "(SortCompare compareEvents a b < 0)
           = ((spec_rank a, kickoff a) < (spec_rank b, kickoff b))"
    and "(0 < SortCompare compareEvents a b)
           = ((spec_rank b, kickoff b) < (spec_rank a, kickoff a))"
proof -
  define d where "d = (if spec_rank a \<noteq> spec_rank b then spec_rank a - spec_rank b
                       else kickoff a - kickoff b)"
  have s: "SortCompare compareEvents a b = of_int d"
    by (simp add: SortCompare_keyed[OF assms] d_def)
  have le: "(of_int d \<le> (0::rat)) = (d \<le> 0)" by simp
  have eq: "(of_int d = (0::rat)) = (d = 0)" by simp
  have lt: "(of_int d < (0::rat)) = (d < 0)" by simp
  have gt: "((0::rat) < of_int d) = (0 < d)" by simp
  show "(SortCompare compareEvents a b \<le> 0)
           = ((spec_rank a, kickoff a) \<le> (spec_rank b, kickoff b))"
    unfolding s le by (auto simp: d_def less_eq_prod_def)
  show "(SortCompare compareEvents a b = 0)
           = ((spec_rank a, kickoff a) = (spec_rank b, kickoff b))"
    unfolding s eq by (auto simp: d_def)
  show "(SortCompare compareEvents a b < 0)
           = ((spec_rank a, kickoff a) < (spec_rank b, kickoff b))"
    unfolding s lt by (auto simp: d_def less_prod_def)
  show "(0 < SortCompare compareEvents a b)
           = ((spec_rank b, kickoff b) < (spec_rank a, kickoff a))"
    unfolding s gt by (auto simp: d_def less_prod_def)
qed

lemma consistent_keyed:
  assumes "\<forall>e\<in>set evts. well_keyed e"
  shows "consistent_on compareEvents evts"
proof -
  have wk: "well_keyed a" if "a \<in> set evts" for a
    using that assms by blast
  have n: "compareEvents a b \<noteq> NaN" if "a \<in> set evts" "b \<in> set evts" for a b
    by (simp add: compareEvents_keyed[OF wk[OF that(1)] wk[OF that(2)]])
  have r: "SortCompare compareEvents a a = 0" if "a \<in> set evts" for a
    by (simp add: SortCompare_keyed[OF wk[OF that] wk[OF that]])
  have s: "SortCompare compareEvents b a = 0"
    if "a \<in> set evts" "b \<in> set evts" "SortCompare compareEvents a b = 0" for a b
    using that(3)
    by (simp add: SortCompare_signs(2)[OF wk[OF that(1)] wk[OF that(2)]]
        SortCompare_signs(2)[OF wk[OF that(2)] wk[OF that(1)]])
  have t0: "SortCompare compareEvents a c = 0"
    if "a \<in> set evts" "b \<in> set evts" "c \<in> set evts"
      "SortCompare compareEvents a b = 0" "SortCompare compareEvents b c = 0" for a b c
    using that(4,5)
    by (simp add: SortCompare_signs(2)[OF wk[OF that(1)] wk[OF that(2)]]
        SortCompare_signs(2)[OF wk[OF that(2)] wk[OF that(3)]]
        SortCompare_signs(2)[OF wk[OF that(1)] wk[OF that(3)]])
  have t1: "SortCompare compareEvents a c < 0"
    if "a \<in> set evts" "b \<in> set evts" "c \<in> set evts"
      "SortCompare compareEvents a b < 0" "SortCompare compareEvents b c < 0" for a b c
  proof -
    have "(spec_rank a, kickoff a) < (spec_rank b, kickoff b)"
      using that(4) by (simp only: SortCompare_signs(3)[OF wk[OF that(1)] wk[OF that(2)]])
    moreover have "(spec_rank b, kickoff b) < (spec_rank c, kickoff c)"
      using that(5) by (simp only: SortCompare_signs(3)[OF wk[OF that(2)] wk[OF that(3)]])
    ultimately have "(spec_rank a, kickoff a) < (spec_rank c, kickoff c)" by (rule less_trans)
    then show ?thesis by (simp only: SortCompare_signs(3)[OF wk[OF that(1)] wk[OF that(3)]])
  qed
  have t2: "0 < SortCompare compareEvents a c"
    if "a \<in> set evts" "b \<in> set evts" "c \<in> set evts"
      "0 < SortCompare compareEvents a b" "0 < SortCompare compareEvents b c" for a b c
  proof -
    have "(spec_rank b, kickoff b) < (spec_rank a, kickoff a)"
      using that(4) by (simp only: SortCompare_signs(4)[OF wk[OF that(1)] wk[OF that(2)]])
    moreover have "(spec_rank c, kickoff c) < (spec_rank b, kickoff b)"
      using that(5) by (simp only: SortCompare_signs(4)[OF wk[OF that(2)] wk[OF that(3)]])
    ultimately have "(spec_rank c, kickoff c) < (spec_rank a, kickoff a)"
      by (rule less_trans[rotated])
    then show ?thesis by (simp only: SortCompare_signs(4)[OF wk[OF that(1)] wk[OF that(3)]])
  qed
  have c1: "list_all (\<lambda>a. list_all (\<lambda>b. compareEvents a b \<noteq> NaN) evts) evts"
    unfolding list_all_iff using n by blast
  have c2: "list_all (\<lambda>a. SortCompare compareEvents a a = 0) evts"
    unfolding list_all_iff using r by blast
  have c3: "list_all (\<lambda>a. list_all (\<lambda>b.
           (if SortCompare compareEvents a b = 0 then SortCompare compareEvents b a = 0
            else True)) evts) evts"
    unfolding list_all_iff
  proof (intro ballI)
    fix a b assume "a \<in> set evts" "b \<in> set evts"
    then show "if SortCompare compareEvents a b = 0 then SortCompare compareEvents b a = 0
               else True"
      using s[of a b] by simp
  qed
  have c4: "list_all (\<lambda>a. list_all (\<lambda>b. list_all (\<lambda>c.
           (if SortCompare compareEvents a b = 0 \<and> SortCompare compareEvents b c = 0
            then SortCompare compareEvents a c = 0 else True)
           \<and> (if SortCompare compareEvents a b < 0 \<and> SortCompare compareEvents b c < 0
               then SortCompare compareEvents a c < 0 else True)
           \<and> (if SortCompare compareEvents a b > 0 \<and> SortCompare compareEvents b c > 0
               then SortCompare compareEvents a c > 0 else True)) evts) evts) evts"
    unfolding list_all_iff
  proof (intro ballI conjI)
    fix a b c assume m: "a \<in> set evts" "b \<in> set evts" "c \<in> set evts"
    show "if SortCompare compareEvents a b = 0 \<and> SortCompare compareEvents b c = 0
          then SortCompare compareEvents a c = 0 else True"
      using t0[OF m] by simp
    show "if SortCompare compareEvents a b < 0 \<and> SortCompare compareEvents b c < 0
          then SortCompare compareEvents a c < 0 else True"
      using t1[OF m] by simp
    show "if SortCompare compareEvents a b > 0 \<and> SortCompare compareEvents b c > 0
          then SortCompare compareEvents a c > 0 else True"
      using t2[OF m] by simp
  qed
  from c1 c2 c3 c4 show ?thesis unfolding consistent_on_def by blast
qed

lemma insert_sorted_insort:
  assumes "well_keyed x" "\<forall>y\<in>set ys. well_keyed y"
  shows "insert_sorted compareEvents x ys = insort_key (\<lambda>e. (spec_rank e, kickoff e)) x ys"
  using assms
proof (induction ys)
  case Nil
  then show ?case by simp
next
  case (Cons y ys)
  then have "(SortCompare compareEvents x y \<le> 0) =
         ((spec_rank x, kickoff x) \<le> (spec_rank y, kickoff y))"
    by (simp add: SortCompare_signs)
  with Cons show ?case by simp
qed

lemma insertion_sort_key:
  assumes "\<forall>e\<in>set evts. well_keyed e"
  shows "foldr (insert_sorted compareEvents) evts []
           = sort_key (\<lambda>e. (spec_rank e, kickoff e)) evts"
  using assms
proof (induction evts)
  case Nil
  then show ?case by simp
next
  case (Cons x xs)
  then have ih: "foldr (insert_sorted compareEvents) xs []
                   = sort_key (\<lambda>e. (spec_rank e, kickoff e)) xs"
    by simp
  have "\<forall>y\<in>set (sort_key (\<lambda>e. (spec_rank e, kickoff e)) xs). well_keyed y"
    using Cons.prems by simp
  then have "insert_sorted compareEvents x (sort_key (\<lambda>e. (spec_rank e, kickoff e)) xs)
      = insort_key (\<lambda>e. (spec_rank e, kickoff e)) x
          (sort_key (\<lambda>e. (spec_rank e, kickoff e)) xs)"
    using Cons.prems by (intro insert_sorted_insort) simp_all
  then show ?case using ih by simp
qed

lemma sortEvents_sort_key:
  assumes "\<forall>e\<in>set evts. well_keyed e"
  shows "sortEvents j evts = sort_key (\<lambda>e. (spec_rank e, kickoff e)) evts"
  using assms by (simp add: sortEvents_def array_sort_def consistent_keyed insertion_sort_key)

text \<open>
  C4, as the claim states it, fails in two ways. A state that names an inherited
  property (\<open>constructor\<close>) is not given priority 3: the lookup finds the inherited
  object, the comparator returns NaN against a final event, and the final event is not
  sorted before it. An event without a valid date makes the comparator return NaN as
  well; the comparator is then not consistent and the order is the engine's: here
  the array is left as it is, with the later kickoff first.
\<close>

theorem sortEvents_counterexample:
  "priority ctor_event = Proto ''constructor''
   \<and> compareEvents post_event ctor_event = NaN
   \<and> compareEvents ctor_event post_event = NaN
   \<and> sortEvents js0 [ctor_event, post_event] = [ctor_event, post_event]
   \<and> \<not> sorted_wrt before_or_tied (sortEvents js0 [ctor_event, post_event])
   \<and> compareEvents (mk_event ''a'' ''pre'' 2) dateless_event = NaN
   \<and> \<not> consistent_on compareEvents
          [mk_event ''a'' ''pre'' 2, dateless_event, mk_event ''c'' ''pre'' 1]
   \<and> sortEvents js0 [mk_event ''a'' ''pre'' 2, dateless_event, mk_event ''c'' ''pre'' 1]
       = [mk_event ''a'' ''pre'' 2, dateless_event, mk_event ''c'' ''pre'' 1]
   \<and> \<not> sorted_wrt before_or_tied
          (sortEvents js0 [mk_event ''a'' ''pre'' 2, dateless_event, mk_event ''c'' ''pre'' 1])"
proof -
  have a: "priority ctor_event = Proto ''constructor''" by code_simp
  have b: "compareEvents post_event ctor_event = NaN" by code_simp
  have c: "compareEvents ctor_event post_event = NaN" by code_simp
  have nc: "\<not> consistent_on compareEvents [ctor_event, post_event]"
    by (simp add: consistent_on_def c)
  have d: "sortEvents js0 [ctor_event, post_event] = [ctor_event, post_event]"
    by (simp add: sortEvents_def array_sort_def nc js0_def)
  have "\<not> before_or_tied ctor_event post_event" by code_simp
  then have e: "\<not> sorted_wrt before_or_tied [ctor_event, post_event]" by simp
  have f: "compareEvents (mk_event ''a'' ''pre'' 2) dateless_event = NaN" by code_simp
  have g: "\<not> consistent_on compareEvents
          [mk_event ''a'' ''pre'' 2, dateless_event, mk_event ''c'' ''pre'' 1]"
    by (simp add: consistent_on_def f)
  have h: "sortEvents js0 [mk_event ''a'' ''pre'' 2, dateless_event, mk_event ''c'' ''pre'' 1]
       = [mk_event ''a'' ''pre'' 2, dateless_event, mk_event ''c'' ''pre'' 1]"
    by (simp add: sortEvents_def array_sort_def g js0_def)
  have "\<not> before_or_tied (mk_event ''a'' ''pre'' 2) (mk_event ''c'' ''pre'' 1)" by code_simp
  then have i: "\<not> sorted_wrt before_or_tied
          [mk_event ''a'' ''pre'' 2, dateless_event, mk_event ''c'' ''pre'' 1]" by simp
  from a b c d e f g h i show ?thesis by simp
qed

text \<open>
  C4, amended. For every list of events whose dates are valid and whose states do not
  name an inherited property, \<open>sortEvents\<close> returns a permutation of the list, ordered
  by status priority (post 0, in 1, pre 2, any other or missing state 3) and then by
  kickoff time ascending, and events equal on both keys keep their original relative
  order. The state classified is the lower-cased competition-level state, with the
  event-level state as fallback, and the code's priority of each event is the spec's.
\<close>

theorem sortEvents_stable_order:
  assumes "\<forall>e\<in>set evts. ev_time e \<noteq> None"
    and "\<forall>e\<in>set evts. \<not> inherited (getState e)"
  shows "mset (sortEvents j evts) = mset evts
    \<and> sorted_wrt before_or_tied (sortEvents j evts)
    \<and> (\<forall>k. filter (same_keys k) (sortEvents j evts) = filter (same_keys k) evts)
    \<and> (\<forall>e. getState e = spec_state e)
    \<and> (\<forall>e\<in>set evts. priority e = Rank (spec_rank e))"
proof -
  let ?key = "\<lambda>e. (spec_rank e, kickoff e)"
  have wk: "\<forall>e\<in>set evts. well_keyed e" using assms by (simp add: well_keyed_def)
  have eq: "sortEvents j evts = sort_key ?key evts"
    using wk by (rule sortEvents_sort_key)
  have p: "mset (sortEvents j evts) = mset evts" by (simp add: eq)
  have "sorted (map ?key (sort_key ?key evts))" by (rule sorted_sort_key)
  then have "sorted_wrt (\<lambda>a b. ?key a \<le> ?key b) (sortEvents j evts)"
    by (simp add: eq sorted_map)
  moreover have "?key a \<le> ?key b \<Longrightarrow> before_or_tied a b" for a b
    by (auto simp: before_or_tied_def less_eq_prod_def)
  ultimately have s: "sorted_wrt before_or_tied (sortEvents j evts)"
    by (rule sorted_wrt_mono_rel[rotated]) simp
  have st: "filter (same_keys k) (sortEvents j evts) = filter (same_keys k) evts" for k
  proof -
    have k: "same_keys k = (\<lambda>y. ?key y = ?key k)" by (auto simp: same_keys_def fun_eq_iff)
    have "filter (\<lambda>y. ?key y = ?key k) (sort_key ?key evts) = filter (\<lambda>y. ?key y = ?key k) evts"
      by (rule sort_key_stable)
    then show ?thesis unfolding k eq .
  qed
  have pr: "\<forall>e\<in>set evts. priority e = Rank (spec_rank e)"
    using assms(2) by (simp add: priority_rank)
  from p s st getState_spec pr show ?thesis by blast
qed

theorem sortEvents_stable_order_witness:
  "map ev_time sample_events = [Some 5, Some 9, Some 1, Some 7, Some 9, Some 2]
   \<and> map getState sample_events = [''pre'', ''in'', ''weird'', ''post'', ''in'', ''pre'']
   \<and> map ev_id (sortEvents js0 sample_events) =
       [Some ''d'', Some ''b'', Some ''e'', Some ''f'', Some ''a'', Some ''c'']
   \<and> mset (sortEvents js0 sample_events) = mset sample_events
   \<and> sorted_wrt before_or_tied (sortEvents js0 sample_events)
   \<and> getState dateless_event = ''pre''"
proof -
  have t: "map ev_time sample_events = [Some 5, Some 9, Some 1, Some 7, Some 9, Some 2]"
    by (simp add: sample_events_def mk_event_def)
  have g: "map getState sample_events = [''pre'', ''in'', ''weird'', ''post'', ''in'', ''pre'']"
    by code_simp
  have h1: "\<forall>e\<in>set sample_events. ev_time e \<noteq> None"
    by (simp add: sample_events_def mk_event_def)
  have "list_all (\<lambda>e. \<not> inherited (getState e)) sample_events" by code_simp
  then have h2: "\<forall>e\<in>set sample_events. \<not> inherited (getState e)"
    by (simp add: list_all_iff)
  have wk: "\<forall>e\<in>set sample_events. well_keyed e"
    using h1 h2 by (simp add: well_keyed_def)
  have "map ev_id (sort_key (\<lambda>e. (spec_rank e, kickoff e)) sample_events) =
       [Some ''d'', Some ''b'', Some ''e'', Some ''f'', Some ''a'', Some ''c'']"
    by code_simp
  then have v: "map ev_id (sortEvents js0 sample_events) =
       [Some ''d'', Some ''b'', Some ''e'', Some ''f'', Some ''a'', Some ''c'']"
    by (simp add: sortEvents_sort_key[OF wk])
  have d: "getState dateless_event = ''pre''" by code_simp
  from sortEvents_stable_order [OF h1 h2, of js0] t g v d show ?thesis by blast
qed

section \<open>View renderer: results\<close>







lemma render_section_step:
  "render_sections j nodes st ((label, es) # rest) =
     (case create_cards j st es of
        (Inl err, st') \<Rightarrow>
          (if es = [] then render_sections j nodes st rest
           else (Threw err, nodes @ [SectionHeader (header_text label (length es))], st'))
      | (Inr cs, st') \<Rightarrow>
          (if es = [] then render_sections j nodes st rest
           else render_sections j
                  (nodes @ [SectionHeader (header_text label (length es)), CardGrid cs]) st' rest))"
  by (simp add: Let_def split: prod.splits sum.splits)












lemma group_loop_states:
  assumes "group_loop g es = Inr g'"
  shows "\<forall>e\<in>set es. \<not> inherited (getState e)"
  using assms
proof (induction es arbitrary: g)
  case Nil
  then show ?case by simp
next
  case (Cons e es)
  obtain r where r: "push_group g e = r" by simp
  show ?case
  proof (cases r)
    case (Inl err)
    then show ?thesis using Cons.prems r by simp
  next
    case (Inr g1)
    then have p: "push_group g e = Inr g1" using r by simp
    then have a: "\<not> inherited (getState e)"
      by (auto simp: push_group_def inherited_def Let_def split: if_splits)
    have "group_loop g1 es = Inr g'" using Cons.prems p by simp
    then have "\<forall>x\<in>set es. \<not> inherited (getState x)" by (rule Cons.IH)
    with a show ?thesis by simp
  qed
qed



lemma renderEvents_Returned_states:
  assumes "fst (renderEvents j w events) = Returned"
  shows "\<forall>e\<in>set events. \<not> inherited (getState e)"
proof -
  obtain gr where gr: "group_events events = gr" by simp
  have "\<And>err. gr \<noteq> Inl err"
    using assms gr by (auto simp: renderEvents_def Let_def)
  then obtain g where "gr = Inr g" by (cases gr) auto
  then have "group_loop \<lparr>g_post = [], g_in = [], g_pre = []\<rparr> events = Inr g"
    using gr by (simp add: group_events_def)
  then show ?thesis by (rule group_loop_states)
qed


















text \<open>
  A score with more digits than a Number holds is shown as the Number nearest to it,
  and the line-score table of a final event has one column for each period.
\<close>

lemma createCard_scored_event:
  "map_sum id card_awayScore (fst (createCard js0 state0 scored_event))
     = Inr ''9007199254740992''
   \<and> map_sum id card_homeScore (fst (createCard js0 state0 scored_event)) = Inr ''21''
   \<and> map_sum id (map_option ls_header \<circ> card_linescore) (fst (createCard js0 state0 scored_event))
     = Inr (Some [[], ''Q1'', ''Q2'', ''T''])"
  by code_simp

section \<open>Startup, navigation and polling: results\<close>

text \<open>A render changes the Live Set and the grid, and nothing else.\<close>

lemma createCard_frame: "\<exists>L. snd (createCard j st e) = st\<lparr>liveEventIds := L\<rparr>"
proof -
  have "snd (createCard j st e) = st
      \<or> snd (createCard j st e) = st\<lparr>liveEventIds := insert (ev_id e) (liveEventIds st)\<rparr>"
    by (simp add: createCard_def Let_def split: sum.splits option.splits)
  moreover have "st = st\<lparr>liveEventIds := liveEventIds st\<rparr>" by simp
  ultimately show ?thesis by metis
qed

lemma create_cards_frame: "\<exists>L. snd (create_cards j st es) = st\<lparr>liveEventIds := L\<rparr>"
proof (induction es arbitrary: st)
  case Nil
  have "snd (create_cards j st []) = st\<lparr>liveEventIds := liveEventIds st\<rparr>" by simp
  then show ?case by (rule exI)
next
  case (Cons e es)
  obtain r st1 where c: "createCard j st e = (r, st1)" by (cases "createCard j st e")
  obtain L1 where l1: "st1 = st\<lparr>liveEventIds := L1\<rparr>"
    using createCard_frame[of j st e] c by auto
  show ?case
  proof (cases r)
    case (Inl err)
    then show ?thesis using c l1 by auto
  next
    case (Inr c1)
    obtain r2 st2 where cc: "create_cards j st1 es = (r2, st2)"
      by (cases "create_cards j st1 es")
    obtain L2 where "st2 = st1\<lparr>liveEventIds := L2\<rparr>"
      using Cons.IH[of st1] cc by auto
    then have l2: "st2 = st\<lparr>liveEventIds := L2\<rparr>" by (simp add: l1)
    have "snd (create_cards j st (e # es)) = st2"
      using c cc Inr by (cases r2) simp_all
    then show ?thesis using l2 by auto
  qed
qed

lemma render_sections_frame:
  "\<exists>L. snd (snd (render_sections j nodes st secs)) = st\<lparr>liveEventIds := L\<rparr>"
proof (induction secs arbitrary: nodes st)
  case Nil
  have "snd (snd (render_sections j nodes st [])) = st\<lparr>liveEventIds := liveEventIds st\<rparr>"
    by simp
  then show ?case by (rule exI)
next
  case (Cons sec secs)
  obtain label es where sec: "sec = (label, es)" by (cases sec)
  show ?case
  proof (cases "es = []")
    case True
    then show ?thesis using Cons.IH[of nodes st] sec by simp
  next
    case False
    obtain r st1 where cc: "create_cards j st es = (r, st1)" by (cases "create_cards j st es")
    obtain L1 where l1: "st1 = st\<lparr>liveEventIds := L1\<rparr>"
      using create_cards_frame[of j st es] cc by auto
    show ?thesis
    proof (cases r)
      case (Inl err)
      then show ?thesis using sec False cc l1 by (auto simp: Let_def)
    next
      case (Inr cs)
      define nodes1 where
        "nodes1 = (nodes @ [SectionHeader (header_text label (length es))]) @ [CardGrid cs]"
      obtain L2 where "snd (snd (render_sections j nodes1 st1 secs)) = st1\<lparr>liveEventIds := L2\<rparr>"
        using Cons.IH[of nodes1 st1] by auto
      then have "snd (snd (render_sections j nodes1 st1 secs)) = st\<lparr>liveEventIds := L2\<rparr>"
        by (simp add: l1)
      moreover have "render_sections j nodes st (sec # secs) = render_sections j nodes1 st1 secs"
        using sec False cc Inr by (simp add: Let_def nodes1_def)
      ultimately show ?thesis by auto
    qed
  qed
qed

lemma renderEvents_frame:
  "\<exists>L nodes. snd (renderEvents j w es) = w\<lparr>app := (app w)\<lparr>liveEventIds := L\<rparr>, GRID := nodes\<rparr>"
proof (cases "group_events es")
  case (Inl err)
  then have "snd (renderEvents j w es) = w\<lparr>app := (app w)\<lparr>liveEventIds := {}\<rparr>, GRID := []\<rparr>"
    by (simp add: renderEvents_def)
  then show ?thesis by blast
next
  case (Inr g)
  define w0 where "w0 = w\<lparr>GRID := [], app := (app w)\<lparr>liveEventIds := {}\<rparr>\<rparr>"
  define secs where "secs = [(''Final'', g_post g), (''Live'', g_in g), (''Upcoming'', g_pre g)]"
  obtain out nodes st' where rs: "render_sections j [] (app w0) secs = (out, nodes, st')"
    by (cases "render_sections j [] (app w0) secs")
  obtain L where "st' = (app w0)\<lparr>liveEventIds := L\<rparr>"
    using render_sections_frame[of j "[]" "app w0" secs] rs by auto
  then have l: "st' = (app w)\<lparr>liveEventIds := L\<rparr>" by (simp add: w0_def)
  have "renderEvents j w es = (out, w0\<lparr>app := st', GRID := nodes\<rparr>)"
    using Inr rs unfolding renderEvents_def w0_def[symmetric] Let_def
    by (simp add: secs_def)
  then have "snd (renderEvents j w es) = w\<lparr>app := (app w)\<lparr>liveEventIds := L\<rparr>, GRID := nodes\<rparr>"
    by (simp add: l w0_def)
  then show ?thesis by blast
qed

lemma renderEvents_nav:
  assumes "renderEvents j w es = (out, w')"
  shows "week (app w') = week (app w)"
    and "maxWeeks (app w') = maxWeeks (app w)"
    and "wired w' = wired w"
    and "WEEK_OPTIONS w' = WEEK_OPTIONS w"
    and "timers w' = timers w"
    and "next_timer w' = next_timer w"
    and "refreshTimer (app w') = refreshTimer (app w)"
proof -
  obtain L nodes where "w' = w\<lparr>app := (app w)\<lparr>liveEventIds := L\<rparr>, GRID := nodes\<rparr>"
    using renderEvents_frame[of j w es] assms by auto
  then show "week (app w') = week (app w)"
    and "maxWeeks (app w') = maxWeeks (app w)"
    and "wired w' = wired w"
    and "WEEK_OPTIONS w' = WEEK_OPTIONS w"
    and "timers w' = timers w"
    and "next_timer w' = next_timer w"
    and "refreshTimer (app w') = refreshTimer (app w)"
    by simp_all
qed

lemma clearInterval_nav [simp]:
  "app (clearInterval h w) = app w"
  "wired (clearInterval h w) = wired w"
  "WEEK_OPTIONS (clearInterval h w) = WEEK_OPTIONS w"
  by (simp_all add: clearInterval_def split: option.splits)

lemma loadWeek_begin_nav [simp]:
  "week (app (loadWeek_begin w)) = week (app w)"
  "maxWeeks (app (loadWeek_begin w)) = maxWeeks (app w)"
  "wired (loadWeek_begin w) = wired w"
  "WEEK_OPTIONS (loadWeek_begin w) = WEEK_OPTIONS w"
  by (simp_all add: loadWeek_begin_def Let_def)

lemma loadWeek_resume_cases:
  assumes "renderEvents j (w\<lparr>STATUS := Showing (length (events_of j d)) (week (app w))\<rparr>)
             (events_of j d) = (out, w2)"
    and "events_of j d \<noteq> []"
  shows "loadWeek_resume j w (Inr d) =
           (case out of
              Threw err \<Rightarrow> (Threw err, w2)
            | Returned \<Rightarrow>
                (if liveEventIds (app w2) \<noteq> {}
                 then (Returned, (snd (setInterval w2))
                        \<lparr>app := (app (snd (setInterval w2)))\<lparr>refreshTimer := Some (next_timer w2)\<rparr>\<rparr>)
                 else (Returned, w2)))"
  using assms by (simp add: loadWeek_resume_def Let_def setInterval_def split: outcome.splits)

lemma refreshLive_cases:
  assumes "renderEvents j w (events_of j d) = (out, w1)"
  shows "refreshLive j w (Inr d) =
           (case out of
              Threw err \<Rightarrow> (Returned, w1\<lparr>console := console w1 @ [ConsoleWarn err]\<rparr>)
            | Returned \<Rightarrow>
                (if liveEventIds (app w1) = {}
                 then (Returned, clearInterval (refreshTimer (app w1)) w1)
                 else (Returned, w1)))"
  using assms by (simp add: refreshLive_def Let_def)

lemma loadWeek_resume_nav:
  "week (app (snd (loadWeek_resume j w r))) = week (app w)"
  "maxWeeks (app (snd (loadWeek_resume j w r))) = maxWeeks (app w)"
  "wired (snd (loadWeek_resume j w r)) = wired w"
  "WEEK_OPTIONS (snd (loadWeek_resume j w r)) = WEEK_OPTIONS w"
proof -
  have "week (app (snd (loadWeek_resume j w r))) = week (app w)
      \<and> maxWeeks (app (snd (loadWeek_resume j w r))) = maxWeeks (app w)
      \<and> wired (snd (loadWeek_resume j w r)) = wired w
      \<and> WEEK_OPTIONS (snd (loadWeek_resume j w r)) = WEEK_OPTIONS w"
  proof (cases r)
    case (Inl err)
    then show ?thesis by (simp add: loadWeek_resume_def)
  next
    case (Inr d)
    show ?thesis
    proof (cases "events_of j d = []")
      case True
      then show ?thesis using Inr by (simp add: loadWeek_resume_def)
    next
      case False
      obtain out w2 where
        r: "renderEvents j (w\<lparr>STATUS := Showing (length (events_of j d)) (week (app w))\<rparr>)
              (events_of j d) = (out, w2)"
        by (cases "renderEvents j (w\<lparr>STATUS := Showing (length (events_of j d)) (week (app w))\<rparr>)
              (events_of j d)")
      note n = renderEvents_nav[OF r]
      show ?thesis
        unfolding Inr loadWeek_resume_cases[OF r False]
        by (cases out) (simp_all add: n setInterval_def)
    qed
  qed
  then show "week (app (snd (loadWeek_resume j w r))) = week (app w)"
    "maxWeeks (app (snd (loadWeek_resume j w r))) = maxWeeks (app w)"
    "wired (snd (loadWeek_resume j w r)) = wired w"
    "WEEK_OPTIONS (snd (loadWeek_resume j w r)) = WEEK_OPTIONS w"
    by simp_all
qed

lemma refreshLive_returns: "fst (refreshLive j w r) = Returned"
proof (cases r)
  case (Inl err)
  then show ?thesis by (simp add: refreshLive_def)
next
  case (Inr d)
  obtain out w1 where r: "renderEvents j w (events_of j d) = (out, w1)"
    by (cases "renderEvents j w (events_of j d)")
  show ?thesis unfolding Inr refreshLive_cases[OF r] by (cases out) simp_all
qed

lemma refreshLive_nav:
  "week (app (snd (refreshLive j w r))) = week (app w)"
  "maxWeeks (app (snd (refreshLive j w r))) = maxWeeks (app w)"
  "wired (snd (refreshLive j w r)) = wired w"
  "WEEK_OPTIONS (snd (refreshLive j w r)) = WEEK_OPTIONS w"
proof -
  have "week (app (snd (refreshLive j w r))) = week (app w)
      \<and> maxWeeks (app (snd (refreshLive j w r))) = maxWeeks (app w)
      \<and> wired (snd (refreshLive j w r)) = wired w
      \<and> WEEK_OPTIONS (snd (refreshLive j w r)) = WEEK_OPTIONS w"
  proof (cases r)
    case (Inl err)
    then show ?thesis by (simp add: refreshLive_def)
  next
    case (Inr d)
    obtain out w1 where r: "renderEvents j w (events_of j d) = (out, w1)"
      by (cases "renderEvents j w (events_of j d)")
    note n = renderEvents_nav[OF r]
    show ?thesis unfolding Inr refreshLive_cases[OF r] by (cases out) (simp_all add: n)
  qed
  then show "week (app (snd (refreshLive j w r))) = week (app w)"
    "maxWeeks (app (snd (refreshLive j w r))) = maxWeeks (app w)"
    "wired (snd (refreshLive j w r)) = wired w"
    "WEEK_OPTIONS (snd (refreshLive j w r)) = WEEK_OPTIONS w"
    by simp_all
qed

lemma nav_inv_cong:
  assumes "nav_inv w" "week (app w') = week (app w)" "maxWeeks (app w') = maxWeeks (app w)"
    "wired w' = wired w" "WEEK_OPTIONS w' = WEEK_OPTIONS w"
  shows "nav_inv w'"
  using assms by (simp add: nav_inv_def)

lemma loadWeek_begin_inv: "nav_inv w \<Longrightarrow> nav_inv (loadWeek_begin w)"
  by (rule nav_inv_cong[of w]) simp_all

lemma set_week_inv:
  assumes "nav_inv w" "1 \<le> v" "v \<le> maxWeeks (app w)"
  shows "nav_inv (w\<lparr>app := (app w)\<lparr>week := Some v\<rparr>\<rparr>)"
  using assms by (simp add: nav_inv_def)

lemma on_change_inv:
  assumes "nav_inv w" "v \<in> set (WEEK_OPTIONS w)"
  shows "nav_inv (on_change v w)"
proof -
  have "1 \<le> v \<and> v \<le> maxWeeks (app w)" using assms by (simp add: nav_inv_def)
  then show ?thesis unfolding on_change_def
    using assms(1) by (intro loadWeek_begin_inv set_week_inv) simp_all
qed

lemma on_prev_inv:
  assumes "nav_inv w"
  shows "nav_inv (on_prev w)"
proof (cases "week_num (week (app w)) > 1")
  case True
  from assms obtain k where k: "week (app w) = Some k" "1 \<le> k" "k \<le> maxWeeks (app w)"
    by (auto simp: nav_inv_def)
  with True have "1 \<le> k - 1 \<and> k - 1 \<le> maxWeeks (app w)" by (simp add: week_num_def)
  then have "nav_inv (loadWeek_begin (w\<lparr>app := (app w)\<lparr>week := Some (k - 1)\<rparr>\<rparr>))"
    using assms by (intro loadWeek_begin_inv set_week_inv) simp_all
  then show ?thesis using True k by (simp add: on_prev_def week_num_def)
next
  case False
  then show ?thesis using assms by (simp add: on_prev_def)
qed

lemma on_next_inv:
  assumes "nav_inv w"
  shows "nav_inv (on_next w)"
proof (cases "week_num (week (app w)) < maxWeeks (app w)")
  case True
  from assms obtain k where k: "week (app w) = Some k" "1 \<le> k" "k \<le> maxWeeks (app w)"
    by (auto simp: nav_inv_def)
  with True have "1 \<le> k + 1 \<and> k + 1 \<le> maxWeeks (app w)" by (simp add: week_num_def)
  then have "nav_inv (loadWeek_begin (w\<lparr>app := (app w)\<lparr>week := Some (k + 1)\<rparr>\<rparr>))"
    using assms by (intro loadWeek_begin_inv set_week_inv) simp_all
  then show ?thesis using True k by (simp add: on_next_def week_num_def)
next
  case False
  then show ?thesis using assms by (simp add: on_next_def)
qed

lemma loadWeek_resume_inv: "nav_inv w \<Longrightarrow> nav_inv (snd (loadWeek_resume j w resp))"
  by (rule nav_inv_cong[of w]) (simp_all add: loadWeek_resume_nav)

lemma refreshLive_inv: "nav_inv w \<Longrightarrow> nav_inv (snd (refreshLive j w resp))"
  by (rule nav_inv_cong[of w]) (simp_all add: refreshLive_nav)

lemma init_catch_inv: "nav_inv w \<Longrightarrow> nav_inv (init_catch err w)"
  by (simp add: nav_inv_def init_catch_def)

lemma load_settles_inv:
  assumes "nav_inv w"
  shows "nav_inv (step j w (LoadSettles byInit resp))"
proof (cases "pending_loads w = 0")
  case True
  then show ?thesis using assms by (simp add: step_def)
next
  case False
  define w0 where "w0 = w\<lparr>pending_loads := pending_loads w - 1\<rparr>"
  obtain out w' where r: "loadWeek_resume j w0 resp = (out, w')"
    by (cases "loadWeek_resume j w0 resp")
  have i0: "nav_inv w0" using assms by (simp add: nav_inv_def w0_def)
  have i1: "nav_inv w'" using loadWeek_resume_inv[OF i0, of j resp] r by simp
  have "step j w (LoadSettles byInit resp) =
          (let (out, w') = loadWeek_resume j w0 resp
           in case out of Returned \<Rightarrow> w'
              | Threw err \<Rightarrow> (if byInit then init_catch err w' else w'))"
    using False unfolding step_def w0_def by simp
  then have "step j w (LoadSettles byInit resp) =
          (case out of Returned \<Rightarrow> w' | Threw err \<Rightarrow> (if byInit then init_catch err w' else w'))"
    unfolding r by simp
  then show ?thesis using i1 by (cases out) (simp_all add: init_catch_inv)
qed

lemma tick_settles_inv:
  assumes "nav_inv w"
  shows "nav_inv (step j w (TickSettles resp))"
proof (cases "pending_ticks w = 0")
  case True
  then show ?thesis using assms by (simp add: step_def)
next
  case False
  define w0 where "w0 = w\<lparr>pending_ticks := pending_ticks w - 1\<rparr>"
  have i0: "nav_inv w0" using assms by (simp add: nav_inv_def w0_def)
  have "step j w (TickSettles resp) = snd (refreshLive j w0 resp)"
    using False unfolding step_def w0_def by simp
  then show ?thesis using refreshLive_inv[OF i0] by simp
qed

lemma step_nav_inv:
  assumes "nav_inv w"
  shows "nav_inv (step j w a)"
proof (cases a)
  case (ChangeWeek v)
  then show ?thesis using assms by (simp add: step_def on_change_inv)
next
  case PrevClick
  then show ?thesis using assms by (simp add: step_def on_prev_inv)
next
  case NextClick
  then show ?thesis using assms by (simp add: step_def on_next_inv)
next
  case RefreshClick
  then show ?thesis using assms by (simp add: step_def loadWeek_begin_inv)
next
  case (LoadSettles byInit resp)
  then show ?thesis using assms by (simp only: load_settles_inv)
next
  case (TimerFires i)
  then show ?thesis using assms by (simp add: step_def nav_inv_def)
next
  case (TickSettles resp)
  then show ?thesis using assms by (simp only: tick_settles_inv)
qed

lemma run_nav_inv: "nav_inv w \<Longrightarrow> nav_inv (run j w acts)"
  unfolding run_def by (induction acts arbitrary: w) (simp_all add: step_nav_inv)

lemma init_nav_inv:
  assumes "1 \<le> maxWeeks (app w)"
  shows "nav_inv (init_settles y w (Inr base))"
proof -
  define mw where "mw = (case find (\<lambda>c. case cal_label c of None \<Rightarrow> False | Some l \<Rightarrow> test_regular l)
                   (det_calendar base) of
                       None \<Rightarrow> maxWeeks (app w)
                     | Some c \<Rightarrow>
                         (case cal_entries c of
                            None \<Rightarrow> maxWeeks (app w)
                          | Some n \<Rightarrow> if n = 0 then maxWeeks (app w) else int n))"
  have m: "1 \<le> mw" using assms by (auto simp: mw_def split: option.splits)
  have c: "1 \<le> clamp n 1 mw \<and> clamp n 1 mw \<le> mw" for n
    using m by (auto simp: clamp_def)
  show ?thesis
    using c by (simp add: init_settles_def Let_def mw_def[symmetric] nav_inv_def)
qed

text \<open>
  C9. Once the detection fetch has succeeded, after any sequence of turns of the event
  loop (selector changes to an offered week, Previous, Next, Refresh, settling loads,
  timer ticks) the week is set and lies between 1 and \<open>maxWeeks\<close>, and the selector
  offers exactly the weeks from 1 to \<open>maxWeeks\<close>.
\<close>

theorem week_stays_in_range:
  "\<exists>k. week (app (run j (init_settles thisYear (init_begin world0) (Inr base)) acts)) = Some k
       \<and> 1 \<le> k
       \<and> k \<le> maxWeeks (app (run j (init_settles thisYear (init_begin world0) (Inr base)) acts))
       \<and> WEEK_OPTIONS (run j (init_settles thisYear (init_begin world0) (Inr base)) acts)
           = [1..maxWeeks (app (run j (init_settles thisYear (init_begin world0) (Inr base)) acts))]"
proof -
  have "1 \<le> maxWeeks (app (init_begin world0))"
    by (simp add: init_begin_def world0_def state0_def)
  then have "nav_inv (init_settles thisYear (init_begin world0) (Inr base))"
    by (rule init_nav_inv)
  then have "nav_inv (run j (init_settles thisYear (init_begin world0) (Inr base)) acts)"
    by (rule run_nav_inv)
  then show ?thesis by (auto simp: nav_inv_def)
qed

text \<open>
  C8. When the fetch of a poll tick fails, \<open>refreshLive\<close> returns normally; the error
  is appended to the console as a warning and nothing else changes: the active timers,
  the Live Set (the whole \<open>state\<close> object) and the grid are as before.
\<close>

theorem refreshLive_failed_tick:
  "fst (refreshLive j w (Inl err)) = Returned
   \<and> console (snd (refreshLive j w (Inl err))) = console w @ [ConsoleWarn err]
   \<and> timers (snd (refreshLive j w (Inl err))) = timers w
   \<and> app (snd (refreshLive j w (Inl err))) = app w
   \<and> GRID (snd (refreshLive j w (Inl err))) = GRID w
   \<and> snd (refreshLive j w (Inl err)) = w\<lparr>console := console w @ [ConsoleWarn err]\<rparr>"
  by (simp add: refreshLive_def)

text \<open>
  A load cycle or a poll tick during which nothing else runs and whose render returns
  keeps at most the timer of the slot active, and leaves the scheduler polling exactly
  when the Live Set is not empty; a load whose fetch fails leaves no timer.
\<close>

lemma loadWeek_begin_clears:
  assumes "slot_inv w"
  shows "timers (loadWeek_begin w) = {}"
  using assms
  by (auto simp: slot_inv_def loadWeek_begin_def clearInterval_def Let_def split: option.splits)

lemma loadWeek_resume_idle:
  assumes "timers w = {}" "liveEventIds (app w) = {}"
    and "fst (loadWeek_resume j w (Inr d)) = Returned"
  shows "polling (snd (loadWeek_resume j w (Inr d)))
           = (liveEventIds (app (snd (loadWeek_resume j w (Inr d)))) \<noteq> {})
       \<and> slot_inv (snd (loadWeek_resume j w (Inr d)))"
proof (cases "events_of j d = []")
  case True
  then show ?thesis using assms
    by (simp add: loadWeek_resume_def polling_def slot_inv_def)
next
  case False
  obtain out w2 where
    r: "renderEvents j (w\<lparr>STATUS := Showing (length (events_of j d)) (week (app w))\<rparr>)
          (events_of j d) = (out, w2)"
    by (cases "renderEvents j (w\<lparr>STATUS := Showing (length (events_of j d)) (week (app w))\<rparr>)
          (events_of j d)")
  note n = renderEvents_nav[OF r]
  have o: "out = Returned"
    using assms(3) unfolding loadWeek_resume_cases[OF r False] by (cases out) simp_all
  show ?thesis
    unfolding loadWeek_resume_cases[OF r False] o using assms(1)
    by (simp add: n polling_def slot_inv_def setInterval_def)
qed

lemma loadWeek_undisturbed:
  assumes "slot_inv w" and "fst (loadWeek j w (Inr d)) = Returned"
  shows "polling (snd (loadWeek j w (Inr d))) = (liveEventIds (app (snd (loadWeek j w (Inr d)))) \<noteq> {})
       \<and> slot_inv (snd (loadWeek j w (Inr d)))
       \<and> \<not> polling (snd (loadWeek j w (Inl err)))"
proof -
  define w1 where "w1 = (loadWeek_begin w)\<lparr>pending_loads := pending_loads (loadWeek_begin w) - 1\<rparr>"
  have t: "timers w1 = {}" using assms(1) by (simp add: w1_def loadWeek_begin_clears)
  have l: "loadWeek j w r = loadWeek_resume j w1 r" for r
    by (simp add: loadWeek_def w1_def Let_def)
  have "\<not> polling (snd (loadWeek_resume j w1 (Inl err)))"
    using t by (simp add: loadWeek_resume_def polling_def)
  moreover have e: "liveEventIds (app w1) = {}"
    by (simp add: w1_def loadWeek_begin_def Let_def)
  moreover have "fst (loadWeek_resume j w1 (Inr d)) = Returned"
    using assms(2) by (simp add: l)
  ultimately show ?thesis using loadWeek_resume_idle[OF t e, of j d] by (simp add: l)
qed

lemma refreshLive_undisturbed:
  assumes "slot_inv w" "polling w"
    and "fst (renderEvents j w (events_of j d)) = Returned"
  shows "polling (snd (refreshLive j w (Inr d)))
           = (liveEventIds (app (snd (refreshLive j w (Inr d)))) \<noteq> {})
       \<and> slot_inv (snd (refreshLive j w (Inr d)))"
proof -
  from assms obtain h where h: "refreshTimer (app w) = Some h" "timers w = {h}"
    by (auto simp: slot_inv_def polling_def split: option.splits)
  obtain out w1 where r: "renderEvents j w (events_of j d) = (out, w1)"
    by (cases "renderEvents j w (events_of j d)")
  note n = renderEvents_nav[OF r]
  have o: "out = Returned" using assms(3) r by simp
  show ?thesis
    unfolding refreshLive_cases[OF r] o
    by (simp add: n h clearInterval_def polling_def slot_inv_def)
qed

text \<open>
  C7. The claim asks for at most one poll timer at any time, and for the scheduler to be
  polling exactly when the latest render left a non-empty Live Set. When a second load
  starts while the first is suspended at its fetch and both renders find a live game,
  each resumed load starts an interval timer: two timers are active and the handle of
  the first is overwritten. A later tick without live games cancels only the second;
  the first keeps firing although the Live Set is empty.
\<close>

theorem overlapping_loads_leave_two_timers:
  "timers (run js0 started overlapping_loads) = {0, 1}
   \<and> refreshTimer (app (run js0 started overlapping_loads)) = Some 1
   \<and> timers (run js0 started overlapping_loads_then_tick) = {0}
   \<and> liveEventIds (app (run js0 started overlapping_loads_then_tick)) = {}
   \<and> polling (run js0 started overlapping_loads_then_tick)"
proof -
  have a: "timers (run js0 started overlapping_loads) = {0, 1}" by code_simp
  have b: "refreshTimer (app (run js0 started overlapping_loads)) = Some 1" by code_simp
  have c: "timers (run js0 started overlapping_loads_then_tick) = {0}" by code_simp
  have d: "liveEventIds (app (run js0 started overlapping_loads_then_tick)) = {}" by code_simp
  have e: "polling (run js0 started overlapping_loads_then_tick)"
    by (simp add: polling_def c)
  from a b c d e show ?thesis by blast
qed

end
